theory Spec2Isabelle
  imports Main "HOL-Library.Word"
begin

section \<open>JavaScript strings and numbers used by the image server\<close>

text \<open>
  The server offers two tools: \<^verbatim>\<open>image_generation\<close> asks an image provider for images
  and returns their URLs, \<^verbatim>\<open>save_generated_images\<close> downloads such URLs and writes each
  image with a sidecar metadata file. This theory embeds both handlers, with the file
  system, the network, the clock and the provider as an explicit environment, and
  settles the claims of the specification about them.

  A JavaScript string is modelled as a \<^typ>\<open>string\<close>; one \<^typ>\<open>char\<close> stands for one
  code unit. The functions below are the library operations the server calls, for the
  arguments it passes.
\<close>

definition code :: "char \<Rightarrow> nat" where
  "code c = of_char c"

text \<open>\<^verbatim>\<open>s.slice(start, end)\<close> for non-negative arguments.\<close>

definition slice :: "string \<Rightarrow> nat \<Rightarrow> nat \<Rightarrow> string" where
  "slice s start end' =
     (let len = length s; from = min start len; to = min end' len
      in take (to - from) (drop from s))"

text \<open>The character class \<^verbatim>\<open>[a-z0-9]\<close> under the flag \<^verbatim>\<open>i\<close>.\<close>

definition alnum :: "char \<Rightarrow> bool" where
  "alnum c = (let n = code c in
     (97 \<le> n \<and> n \<le> 122) \<or> (65 \<le> n \<and> n \<le> 90) \<or> (48 \<le> n \<and> n \<le> 57))"

text \<open>\<^verbatim>\<open>s.replace(/[^a-z0-9]/gi, '-')\<close>: every code unit outside the class becomes a hyphen.\<close>

definition replace_non_alnum :: "string \<Rightarrow> string" where
  "replace_non_alnum s = map (\<lambda>c. if alnum c then c else CHR ''-'') s"

definition lower_char :: "char \<Rightarrow> char" where
  "lower_char c = (let n = code c in
     if 65 \<le> n \<and> n \<le> 90 then char_of (n + 32)
     else if 192 \<le> n \<and> n \<le> 222 \<and> n \<noteq> 215 then char_of (n + 32)
     else c)"

definition toLowerCase :: "string \<Rightarrow> string" where
  "toLowerCase s = map lower_char s"

text \<open>Decimal rendering of a number inside a template literal.\<close>

definition digit_char :: "nat \<Rightarrow> char" where
  "digit_char d = char_of (48 + d)"

fun show_nat :: "nat \<Rightarrow> string" where
  "show_nat n = (if n < 10 then [digit_char n] else show_nat (n div 10) @ [digit_char (n mod 10)])"

declare show_nat.simps [simp del]

definition show_int :: "int \<Rightarrow> string" where
  "show_int i = (if i < 0 then CHR ''-'' # show_nat (nat (- i)) else show_nat (nat i))"

section \<open>Filename derivation (saveGeneratedImages, lines 56 to 58)\<close>

definition safePrompt :: "string \<Rightarrow> string" where
  "safePrompt prompt = toLowerCase (replace_non_alnum (slice prompt 0 30))"

definition filename :: "string \<Rightarrow> int \<Rightarrow> nat \<Rightarrow> string" where
  "filename prompt timestamp i =
     safePrompt prompt @ ''-'' @ show_int timestamp @ ''-'' @ show_nat i @ ''.png''"

section \<open>JSON.stringify\<close>

text \<open>
  The JavaScript values the server serialises. \<open>Undefined\<close> is kept apart from \<open>Null\<close>:
  \<^verbatim>\<open>JSON.stringify\<close> drops an object property whose value is undefined and writes an
  undefined array element as \<^verbatim>\<open>null\<close>.
\<close>

datatype jsval =
    Undefined
  | Null
  | Num int
  | Str string
  | Arr "jsval list"
  | Obj "(string \<times> jsval) list"

text \<open>\<^verbatim>\<open>Array.prototype.join\<close> on strings.\<close>

fun join :: "string \<Rightarrow> string list \<Rightarrow> string" where
  "join sep [] = []"
| "join sep [x] = x"
| "join sep (x # y # ys) = x @ sep @ join sep (y # ys)"

definition hex_digit :: "nat \<Rightarrow> char" where
  "hex_digit d = (if d < 10 then char_of (48 + d) else char_of (87 + d))"

definition escape_char :: "char \<Rightarrow> string" where
  "escape_char c = (let n = code c in
     if n = 34 then [CHR 0x5C, CHR 0x22]
     else if n = 92 then [CHR 0x5C, CHR 0x5C]
     else if n = 8 then [CHR 0x5C, CHR ''b'']
     else if n = 12 then [CHR 0x5C, CHR ''f'']
     else if n = 10 then [CHR 0x5C, CHR ''n'']
     else if n = 13 then [CHR 0x5C, CHR ''r'']
     else if n = 9 then [CHR 0x5C, CHR ''t'']
     else if n < 32 then [CHR 0x5C, CHR ''u'', CHR ''0'', CHR ''0'', hex_digit (n div 16), hex_digit (n mod 16)]
     else [c])"

definition quote :: "string \<Rightarrow> string" where
  "quote s = [CHR 0x22] @ concat (map escape_char s) @ [CHR 0x22]"

text \<open>
  Serialisation with the indentation unit \<open>gap\<close> at the current indentation \<open>ind\<close>.
  The case \<open>Undefined\<close> is the one of an array element; an undefined property never
  reaches it.
\<close>

fun serialize :: "string \<Rightarrow> string \<Rightarrow> jsval \<Rightarrow> string" where
  "serialize gap ind Undefined = ''null''"
| "serialize gap ind Null = ''null''"
| "serialize gap ind (Num n) = show_int n"
| "serialize gap ind (Str s) = quote s"
| "serialize gap ind (Arr vs) =
     (let stepback = ind; ind' = ind @ gap;
          partial = map (serialize gap ind') vs
      in if partial = [] then ''[]''
         else if gap = [] then ''['' @ join '','' partial @ '']''
         else ''['' @ [CHR 0x0A] @ ind' @ join ('','' @ [CHR 0x0A] @ ind') partial
              @ [CHR 0x0A] @ stepback @ '']'')"
| "serialize gap ind (Obj fs) =
     (let stepback = ind; ind' = ind @ gap;
          partial = map (\<lambda>kv. quote (fst kv) @ '':'' @ (if gap = [] then [] else '' '')
                                @ serialize gap ind' (snd kv))
                        (filter (\<lambda>kv. snd kv \<noteq> Undefined) fs)
      in if partial = [] then ''{}''
         else if gap = [] then ''{'' @ join '','' partial @ ''}''
         else ''{'' @ [CHR 0x0A] @ ind' @ join ('','' @ [CHR 0x0A] @ ind') partial
              @ [CHR 0x0A] @ stepback @ ''}'')"

text \<open>\<^verbatim>\<open>JSON.stringify(v)\<close> is \<open>JSON_stringify 0 v\<close>, \<^verbatim>\<open>JSON.stringify(v, null, 2)\<close> is
  \<open>JSON_stringify 2 v\<close>.\<close>

definition JSON_stringify :: "nat \<Rightarrow> jsval \<Rightarrow> string" where
  "JSON_stringify space v = serialize (replicate space CHR '' '') [] v"

section \<open>path.join (POSIX)\<close>

fun segments :: "string \<Rightarrow> string list" where
  "segments [] = [[]]"
| "segments (c # cs) =
     (if c = CHR ''/'' then [] # segments cs
      else (case segments cs of [] \<Rightarrow> [[c]] | s # ss \<Rightarrow> (c # s) # ss))"

text \<open>One step of the normalisation: empty and \<^verbatim>\<open>.\<close> segments vanish, \<^verbatim>\<open>..\<close> removes the
  segment before it, or is kept when there is none and the path is relative.\<close>

definition push_segment :: "bool \<Rightarrow> string list \<Rightarrow> string \<Rightarrow> string list" where
  "push_segment allowAboveRoot res seg =
     (if seg = [] \<or> seg = ''.'' then res
      else if seg = ''..'' then
        (if res \<noteq> [] \<and> last res \<noteq> ''..'' then butlast res
         else if allowAboveRoot then res @ [''..'']
         else res)
      else res @ [seg])"

definition normalizeString :: "string \<Rightarrow> bool \<Rightarrow> string" where
  "normalizeString path allowAboveRoot =
     join ''/'' (foldl (push_segment allowAboveRoot) [] (segments path))"

definition normalize :: "string \<Rightarrow> string" where
  "normalize path =
     (if path = [] then ''.''
      else
        let isAbsolute = (hd path = CHR ''/'');
            trailingSeparator = (last path = CHR ''/'');
            p = normalizeString path (\<not> isAbsolute)
        in if p = [] then (if isAbsolute then ''/'' else if trailingSeparator then ''./'' else ''.'')
           else (let p' = (if trailingSeparator then p @ ''/'' else p)
                 in if isAbsolute then ''/'' @ p' else p'))"

definition path_join :: "string list \<Rightarrow> string" where
  "path_join args =
     (let joined = join ''/'' (filter (\<lambda>a. a \<noteq> []) args)
      in if joined = [] then ''.'' else normalize joined)"

section \<open>The outside world: file system, network, clock, provider\<close>

text \<open>
  A thrown JavaScript value is either an instance of \<^verbatim>\<open>Error\<close>, with its message, or
  any other value, kept as the text \<^verbatim>\<open>String(value)\<close> gives for it.
\<close>

datatype thrown = Error string | NonError string

type_synonym bytes = "8 word list"

text \<open>What \<^verbatim>\<open>fetch\<close> resolves to: the HTTP status, and what reading the body gives.\<close>

record response =
  status :: nat
  arrayBuffer :: "thrown + bytes"

datatype file_content = Binary bytes | Text string

datatype image_size = S1024x1024 | S1024x1792 | S1792x1024
datatype image_quality = Standard | Hd
datatype image_style = Vivid | Natural

record ImageGenerationParams =
  g_prompt :: string
  g_size :: image_size
  g_quality :: image_quality
  g_style :: image_style
  g_n :: int

record SaveImagesParams =
  p_urls :: "string list"
  p_prompt :: string
  p_revisedPrompts :: "string list option"
  p_outputDir :: "string option"

text \<open>The argument of \<^verbatim>\<open>openai.images.generate\<close> and one element of its answer's \<^verbatim>\<open>data\<close>.\<close>

record generate_request =
  rq_model :: string
  rq_prompt :: string
  rq_n :: int
  rq_size :: image_size
  rq_quality :: image_quality
  rq_style :: image_style

record image =
  img_url :: "string option"
  img_revised_prompt :: "string option"

text \<open>A content item of a tool result: a text, or an image given by its data and MIME type.\<close>

datatype content_item = TextContent string | ImageContent "string option" string

record CallToolResult =
  content :: "content_item list"
  isError :: "bool option"

text \<open>
  The environment scripts every external call: the outcome of a call of one kind is a
  function of how many calls of that kind the world has recorded and of the call's
  arguments. Nothing else is assumed of the file system, the network, the clock or the
  provider.
\<close>

record env =
  cwd :: string
  OPENAI_API_KEY :: "string option"
  mkdir_result :: "nat \<Rightarrow> string \<Rightarrow> thrown option"
  fetch_result :: "nat \<Rightarrow> string \<Rightarrow> thrown + response"
  now :: "nat \<Rightarrow> int"
  writeFile_result :: "nat \<Rightarrow> string \<Rightarrow> file_content \<Rightarrow> thrown option"
  generate_result :: "nat \<Rightarrow> generate_request \<Rightarrow> thrown + image list"

text \<open>The world records what has happened, in order: directories created, URLs requested,
  clock readings, files written, requests sent to the provider. A directory creation or a
  file write that throws leaves no record. \<^verbatim>\<open>fs.mkdir\<close> is called with \<^verbatim>\<open>recursive: true\<close>, so
  whether an existing directory is an error is the environment's business.\<close>

record world =
  dirs_created :: "string list"
  fetched :: "string list"
  clock_reads :: "int list"
  files_written :: "(string \<times> file_content) list"
  provider_calls :: "generate_request list"

definition fs_mkdir :: "env \<Rightarrow> string \<Rightarrow> world \<Rightarrow> thrown option \<times> world" where
  "fs_mkdir e path w =
     (case mkdir_result e (length (dirs_created w)) path of
        Some err \<Rightarrow> (Some err, w)
      | None \<Rightarrow> (None, w\<lparr>dirs_created := dirs_created w @ [path]\<rparr>))"

definition fetch :: "env \<Rightarrow> string \<Rightarrow> world \<Rightarrow> (thrown + response) \<times> world" where
  "fetch e url w = (fetch_result e (length (fetched w)) url, w\<lparr>fetched := fetched w @ [url]\<rparr>)"

definition Date_now :: "env \<Rightarrow> world \<Rightarrow> int \<times> world" where
  "Date_now e w =
     (let t = now e (length (clock_reads w)) in (t, w\<lparr>clock_reads := clock_reads w @ [t]\<rparr>))"

definition fs_writeFile :: "env \<Rightarrow> string \<Rightarrow> file_content \<Rightarrow> world \<Rightarrow> thrown option \<times> world" where
  "fs_writeFile e path c w =
     (case writeFile_result e (length (files_written w)) path c of
        Some err \<Rightarrow> (Some err, w)
      | None \<Rightarrow> (None, w\<lparr>files_written := files_written w @ [(path, c)]\<rparr>))"

definition images_generate :: "env \<Rightarrow> generate_request \<Rightarrow> world \<Rightarrow> (thrown + image list) \<times> world" where
  "images_generate e rq w =
     (generate_result e (length (provider_calls w)) rq, w\<lparr>provider_calls := provider_calls w @ [rq]\<rparr>)"

section \<open>saveGeneratedImages and saveImages\<close>

text \<open>\<^verbatim>\<open>a || b\<close> on an optional string: undefined and the empty string are falsy.\<close>

definition or_else :: "string option \<Rightarrow> string \<Rightarrow> string" where
  "or_else a b = (case a of None \<Rightarrow> b | Some s \<Rightarrow> if s = [] then b else s)"

text \<open>\<^verbatim>\<open>xs[i]\<close> on an array of optional strings: undefined out of range.\<close>

definition js_index :: "string option list \<Rightarrow> nat \<Rightarrow> string option" where
  "js_index xs i = (if i < length xs then xs ! i else None)"

definition opt_str :: "string option \<Rightarrow> jsval" where
  "opt_str x = (case x of None \<Rightarrow> Undefined | Some s \<Rightarrow> Str s)"

definition metadata :: "string \<Rightarrow> string option \<Rightarrow> string \<Rightarrow> int \<Rightarrow> string \<Rightarrow> jsval" where
  "metadata prompt revisedPrompt url timestamp fname =
     Obj [(''original_prompt'', Str prompt),
          (''revised_prompt'', opt_str revisedPrompt),
          (''url'', Str url),
          (''timestamp'', Num timestamp),
          (''filename'', Str fname)]"

text \<open>The loop of \<^verbatim>\<open>saveGeneratedImages\<close> (lines 47 to 79), from index \<open>i\<close> on.\<close>

function save_loop ::
  "env \<Rightarrow> string list \<Rightarrow> string option list \<Rightarrow> string \<Rightarrow> string \<Rightarrow> nat \<Rightarrow> string list \<Rightarrow> world
     \<Rightarrow> (thrown + string list) \<times> world" where
  "save_loop e urls revisedPrompts prompt targetDir i savedPaths w =
     (if i < length urls then
        (let url = urls ! i;
             revisedPrompt = js_index revisedPrompts i
         in (case fetch e url w of
               (Inl err, w1) \<Rightarrow> (Inl err, w1)
             | (Inr resp, w1) \<Rightarrow>
                 (case arrayBuffer resp of
                    Inl err \<Rightarrow> (Inl err, w1)
                  | Inr buffer \<Rightarrow>
                      (case Date_now e w1 of
                         (timestamp, w2) \<Rightarrow>
                           (let fname = filename prompt timestamp i;
                                filePath = path_join [targetDir, fname]
                            in (case fs_writeFile e filePath (Binary buffer) w2 of
                                  (Some err, w3) \<Rightarrow> (Inl err, w3)
                                | (None, w3) \<Rightarrow>
                                    (case fs_writeFile e (filePath @ ''.json'')
                                            (Text (JSON_stringify 2
                                               (metadata prompt revisedPrompt url timestamp fname))) w3 of
                                       (Some err, w4) \<Rightarrow> (Inl err, w4)
                                     | (None, w4) \<Rightarrow>
                                         save_loop e urls revisedPrompts prompt targetDir (i + 1)
                                           (savedPaths @ [filePath]) w4)))))))
      else (Inr savedPaths, w))"
  by pat_completeness auto
termination
  by (relation "measure (\<lambda>(e, urls, revisedPrompts, prompt, targetDir, i, savedPaths, w). length urls - i)") auto

declare save_loop.simps [simp del]

definition error_text :: "thrown \<Rightarrow> string" where
  "error_text err = (case err of Error message \<Rightarrow> message | NonError s \<Rightarrow> s)"

text \<open>Line 37: \<^verbatim>\<open>outputDir || path.join(process.cwd(), 'images')\<close>.\<close>

definition targetDir :: "env \<Rightarrow> string option \<Rightarrow> string" where
  "targetDir e outputDir = or_else outputDir (path_join [cwd e, ''images''])"

definition saveGeneratedImages ::
  "env \<Rightarrow> string list \<Rightarrow> string option list \<Rightarrow> string \<Rightarrow> string option \<Rightarrow> world
     \<Rightarrow> (thrown + string list) \<times> world" where
  "saveGeneratedImages e urls revisedPrompts prompt outputDir w =
     (case fs_mkdir e (targetDir e outputDir) w of
        (Some err, w1) \<Rightarrow> (Inl (Error (''Failed to create directory: '' @ error_text err)), w1)
      | (None, w1) \<Rightarrow> save_loop e urls revisedPrompts prompt (targetDir e outputDir) 0 [] w1)"

definition saveImages :: "env \<Rightarrow> SaveImagesParams \<Rightarrow> world \<Rightarrow> (thrown + CallToolResult) \<times> world" where
  "saveImages e params w =
     (case saveGeneratedImages e (p_urls params)
             (case p_revisedPrompts params of
                Some rs \<Rightarrow> map Some rs
              | None \<Rightarrow> map (\<lambda>_. None) (p_urls params))
             (p_prompt params) (p_outputDir params) w of
        (Inr savedPaths, w') \<Rightarrow>
          (Inr \<lparr>content = [TextContent (JSON_stringify 0 (Obj
                  [(''saved_paths'', Arr (map Str savedPaths)),
                   (''message'', Str (''Successfully saved '' @ show_nat (length savedPaths)
                        @ '' images to '' @ or_else (p_outputDir params) ''images''
                        @ '' directory''))]))],
                isError = None\<rparr>, w')
      | (Inl (Error message), w') \<Rightarrow>
          (Inr \<lparr>content = [TextContent (''Failed to save images: '' @ message)],
                isError = Some True\<rparr>, w')
      | (Inl (NonError v), w') \<Rightarrow> (Inl (NonError v), w'))"

section \<open>generateImage\<close>

definition falsy :: "string option \<Rightarrow> bool" where
  "falsy a = (case a of None \<Rightarrow> True | Some s \<Rightarrow> s = [])"

definition generate_request_of :: "ImageGenerationParams \<Rightarrow> generate_request" where
  "generate_request_of params =
     \<lparr>rq_model = ''dall-e-3'', rq_prompt = g_prompt params, rq_n = g_n params,
      rq_size = g_size params, rq_quality = g_quality params, rq_style = g_style params\<rparr>"

text \<open>The tool handler of the server (lines 116 to 159).\<close>

definition generateImage :: "env \<Rightarrow> ImageGenerationParams \<Rightarrow> world \<Rightarrow> (thrown + CallToolResult) \<times> world" where
  "generateImage e params w =
     (let apiKey = OPENAI_API_KEY e
      in if falsy apiKey then (Inl (Error ''OpenAI API key is not available''), w)
         else case images_generate e (generate_request_of params) w of
                (Inr data, w') \<Rightarrow>
                  (Inr \<lparr>content = [TextContent (JSON_stringify 0 (Obj
                          [(''urls'', Arr (map (\<lambda>image. opt_str (img_url image)) data)),
                           (''revised_prompts'', Arr (map (\<lambda>image. opt_str (img_revised_prompt image)) data))]))],
                        isError = None\<rparr>, w')
              | (Inl (Error message), w') \<Rightarrow>
                  (Inr \<lparr>content = [TextContent (''Image generation failed: '' @ message)],
                        isError = Some True\<rparr>, w')
              | (Inl (NonError v), w') \<Rightarrow> (Inl (NonError v), w'))"

text \<open>The function of the same name in the shared module (second source part, lines 23 to 63).\<close>

definition shared_generateImage :: "env \<Rightarrow> ImageGenerationParams \<Rightarrow> world \<Rightarrow> (thrown + CallToolResult) \<times> world" where
  "shared_generateImage e params w =
     (let apiKey = OPENAI_API_KEY e
      in if falsy apiKey then (Inl (Error ''OpenAI API key is not available''), w)
         else case images_generate e (generate_request_of params) w of
                (Inr data, w') \<Rightarrow>
                  (Inr \<lparr>content = map (\<lambda>image. ImageContent (img_url image) ''image/png'') data,
                        isError = None\<rparr>, w')
              | (Inl (Error message), w') \<Rightarrow>
                  (Inr \<lparr>content = [TextContent (''Image generation failed: '' @ message)],
                        isError = Some True\<rparr>, w')
              | (Inl (NonError v), w') \<Rightarrow> (Inl (NonError v), w'))"

section \<open>Vocabulary of the statements\<close>

text \<open>What a download gives: the thrown value if requesting the URL or reading the body
  throws, and the bytes otherwise. The HTTP status plays no part, as in the source.\<close>

definition download_error :: "env \<Rightarrow> nat \<Rightarrow> string \<Rightarrow> thrown option" where
  "download_error e k url =
     (case fetch_result e k url of
        Inl err \<Rightarrow> Some err
      | Inr resp \<Rightarrow> (case arrayBuffer resp of Inl err \<Rightarrow> Some err | Inr _ \<Rightarrow> None))"

definition downloaded :: "env \<Rightarrow> nat \<Rightarrow> string \<Rightarrow> bytes" where
  "downloaded e k url =
     (case fetch_result e k url of
        Inl _ \<Rightarrow> []
      | Inr resp \<Rightarrow> (case arrayBuffer resp of Inl _ \<Rightarrow> [] | Inr b \<Rightarrow> b))"

definition writes_ok :: "env \<Rightarrow> bool" where
  "writes_ok e = (\<forall>k path c. writeFile_result e k path c = None)"

definition is_Error :: "thrown \<Rightarrow> bool" where
  "is_Error err = (case err of Error _ \<Rightarrow> True | NonError _ \<Rightarrow> False)"

text \<open>Every value the network, the file writes and the provider throw is an instance of
  \<^verbatim>\<open>Error\<close>.\<close>

definition errors_only :: "env \<Rightarrow> bool" where
  "errors_only e =
     ((\<forall>k url. case download_error e k url of Some err \<Rightarrow> is_Error err | None \<Rightarrow> True) \<and>
      (\<forall>k path c. case writeFile_result e k path c of Some err \<Rightarrow> is_Error err | None \<Rightarrow> True) \<and>
      (\<forall>k rq. case generate_result e k rq of Inl err \<Rightarrow> is_Error err | Inr _ \<Rightarrow> True))"

text \<open>Item \<open>j\<close> of a save call that starts when the clock has been read \<open>T\<close> times and
  \<open>F\<close> URLs have been requested: its file name, its path, and the two files it leaves.\<close>

definition item_name :: "env \<Rightarrow> nat \<Rightarrow> string \<Rightarrow> nat \<Rightarrow> string" where
  "item_name e T prompt j = filename prompt (now e (T + j)) j"

definition item_path :: "env \<Rightarrow> nat \<Rightarrow> string \<Rightarrow> string \<Rightarrow> nat \<Rightarrow> string" where
  "item_path e T prompt dir j = path_join [dir, item_name e T prompt j]"

definition item_files ::
  "env \<Rightarrow> nat \<Rightarrow> nat \<Rightarrow> string list \<Rightarrow> string option list \<Rightarrow> string \<Rightarrow> string \<Rightarrow> nat
     \<Rightarrow> (string \<times> file_content) list" where
  "item_files e F T urls rps prompt dir j =
     [(item_path e T prompt dir j, Binary (downloaded e (F + j) (urls ! j))),
      (item_path e T prompt dir j @ ''.json'',
       Text (JSON_stringify 2 (metadata prompt (js_index rps j) (urls ! j) (now e (T + j))
                                  (item_name e T prompt j))))]"

definition after_items ::
  "env \<Rightarrow> nat \<Rightarrow> nat \<Rightarrow> string list \<Rightarrow> string option list \<Rightarrow> string \<Rightarrow> string \<Rightarrow> nat \<Rightarrow> nat
     \<Rightarrow> world \<Rightarrow> world" where
  "after_items e F T urls rps prompt dir i k w =
     w\<lparr>fetched := fetched w @ map ((!) urls) [i..<k],
       clock_reads := clock_reads w @ map (\<lambda>j. now e (T + j)) [i..<k],
       files_written := files_written w @ concat (map (item_files e F T urls rps prompt dir) [i..<k])\<rparr>"

text \<open>The revised prompt the request carries for item \<open>j\<close>, if any.\<close>

definition revised_at :: "SaveImagesParams \<Rightarrow> nat \<Rightarrow> string option" where
  "revised_at params j =
     (case p_revisedPrompts params of
        None \<Rightarrow> None
      | Some rs \<Rightarrow> if j < length rs then Some (rs ! j) else None)"

text \<open>The sidecar record as it reads back from the file: the key \<^verbatim>\<open>revised_prompt\<close> is
  there exactly when the item has a revised prompt.\<close>

definition sidecar :: "string \<Rightarrow> string option \<Rightarrow> string \<Rightarrow> int \<Rightarrow> string \<Rightarrow> jsval" where
  "sidecar prompt revisedPrompt url timestamp fname =
     Obj ([(''original_prompt'', Str prompt)]
          @ (case revisedPrompt of None \<Rightarrow> [] | Some r \<Rightarrow> [(''revised_prompt'', Str r)])
          @ [(''url'', Str url), (''timestamp'', Num timestamp), (''filename'', Str fname)])"

definition opt_null :: "string option \<Rightarrow> jsval" where
  "opt_null x = (case x of None \<Rightarrow> Null | Some s \<Rightarrow> Str s)"

definition success_envelope :: "string list \<Rightarrow> string \<Rightarrow> CallToolResult" where
  "success_envelope saved_paths message =
     \<lparr>content = [TextContent (JSON_stringify 0 (Obj
         [(''saved_paths'', Arr (map Str saved_paths)), (''message'', Str message)]))],
      isError = None\<rparr>"

definition error_envelope :: "string \<Rightarrow> CallToolResult" where
  "error_envelope message = \<lparr>content = [TextContent message], isError = Some True\<rparr>"

text \<open>The file name in the words of the specification: the first 30 characters of the
  prompt, every character outside the listed ones replaced by a hyphen, the result
  lowercased, then hyphen, timestamp, hyphen, index and the extension.\<close>

definition spec_allowed :: "char set" where
  "spec_allowed = set ''abcdefghijklmnopqrstuvwxyzABCDEFGHIJKLMNOPQRSTUVWXYZ0123456789''"

definition spec_lowercase :: "char \<Rightarrow> char" where
  "spec_lowercase c =
     (case map_of (zip ''ABCDEFGHIJKLMNOPQRSTUVWXYZ'' ''abcdefghijklmnopqrstuvwxyz'') c of
        Some l \<Rightarrow> l
      | None \<Rightarrow> c)"

definition spec_filename :: "string \<Rightarrow> int \<Rightarrow> nat \<Rightarrow> string" where
  "spec_filename p t i =
     map spec_lowercase (map (\<lambda>c. if c \<in> spec_allowed then c else CHR ''-'') (take 30 p))
       @ ''-'' @ show_int t @ ''-'' @ show_nat i @ ''.png''"

text \<open>Decimal digits, and reading a decimal numeral back.\<close>

definition is_digit :: "char \<Rightarrow> bool" where
  "is_digit c = (48 \<le> code c \<and> code c \<le> 57)"

definition digit_val :: "char \<Rightarrow> nat" where
  "digit_val c = code c - 48"

definition read_nat :: "string \<Rightarrow> nat" where
  "read_nat s = foldl (\<lambda>a c. 10 * a + digit_val c) 0 s"

text \<open>A path segment that normalisation leaves alone, and what \<open>path_join\<close> puts in front
  of such a segment.\<close>

definition plain :: "string \<Rightarrow> bool" where
  "plain f = (f \<noteq> [] \<and> CHR ''/'' \<notin> set f \<and> f \<noteq> ''.'' \<and> f \<noteq> ''..'')"

definition dir_prefix :: "string \<Rightarrow> string" where
  "dir_prefix dir =
     (let isAbsolute = (hd dir = CHR ''/'');
          res = foldl (push_segment (\<not> isAbsolute)) [] (segments dir)
      in (if isAbsolute then ''/'' else []) @ (if res = [] then [] else join ''/'' res @ ''/''))"

definition image_path :: "env \<Rightarrow> world \<Rightarrow> SaveImagesParams \<Rightarrow> nat \<Rightarrow> string" where
  "image_path e w params j =
     path_join [targetDir e (p_outputDir params),
                filename (p_prompt params) (now e (length (clock_reads w) + j)) j]"

definition saved_files :: "env \<Rightarrow> world \<Rightarrow> SaveImagesParams \<Rightarrow> nat \<Rightarrow> (string \<times> file_content) list" where
  "saved_files e w params j =
     [(image_path e w params j, Binary (downloaded e (length (fetched w) + j) (p_urls params ! j))),
      (image_path e w params j @ ''.json'',
       Text (JSON_stringify 2
         (sidecar (p_prompt params) (revised_at params j) (p_urls params ! j)
            (now e (length (clock_reads w) + j))
            (filename (p_prompt params) (now e (length (clock_reads w) + j)) j))))]"

definition saved_message :: "SaveImagesParams \<Rightarrow> nat \<Rightarrow> string" where
  "saved_message params k =
     ''Successfully saved '' @ show_nat k @ '' images to '' @ or_else (p_outputDir params) ''images''
       @ '' directory''"

definition passed_revisedPrompts :: "SaveImagesParams \<Rightarrow> string option list" where
  "passed_revisedPrompts params =
     (case p_revisedPrompts params of
        Some rs \<Rightarrow> map Some rs
      | None \<Rightarrow> map (\<lambda>_. None) (p_urls params))"

text \<open>The two writes of item \<open>j\<close> of the loop, when \<open>W\<close> files had been written before the
  call: what the environment answers to each.\<close>

definition item_image_write ::
  "env \<Rightarrow> nat \<Rightarrow> nat \<Rightarrow> nat \<Rightarrow> string list \<Rightarrow> string \<Rightarrow> string \<Rightarrow> nat \<Rightarrow> thrown option" where
  "item_image_write e F T W urls prompt dir j =
     writeFile_result e (W + 2 * j) (item_path e T prompt dir j)
       (Binary (downloaded e (F + j) (urls ! j)))"

definition item_sidecar_write ::
  "env \<Rightarrow> nat \<Rightarrow> nat \<Rightarrow> nat \<Rightarrow> string list \<Rightarrow> string option list \<Rightarrow> string \<Rightarrow> string \<Rightarrow> nat
     \<Rightarrow> thrown option" where
  "item_sidecar_write e F T W urls rps prompt dir j =
     writeFile_result e (W + 2 * j + 1) (item_path e T prompt dir j @ ''.json'')
       (Text (JSON_stringify 2 (metadata prompt (js_index rps j) (urls ! j) (now e (T + j))
                                  (item_name e T prompt j))))"

text \<open>The same for a call of \<open>saveImages\<close> in world \<open>w\<close>; an item is in order when its
  download and its two writes succeed.\<close>

definition image_write :: "env \<Rightarrow> world \<Rightarrow> SaveImagesParams \<Rightarrow> nat \<Rightarrow> thrown option" where
  "image_write e w sp j =
     writeFile_result e (length (files_written w) + 2 * j) (image_path e w sp j)
       (Binary (downloaded e (length (fetched w) + j) (p_urls sp ! j)))"

definition sidecar_write :: "env \<Rightarrow> world \<Rightarrow> SaveImagesParams \<Rightarrow> nat \<Rightarrow> thrown option" where
  "sidecar_write e w sp j =
     writeFile_result e (length (files_written w) + 2 * j + 1) (image_path e w sp j @ ''.json'')
       (Text (JSON_stringify 2
         (sidecar (p_prompt sp) (revised_at sp j) (p_urls sp ! j)
            (now e (length (clock_reads w) + j))
            (filename (p_prompt sp) (now e (length (clock_reads w) + j)) j))))"

definition mkdir_ok :: "env \<Rightarrow> world \<Rightarrow> SaveImagesParams \<Rightarrow> bool" where
  "mkdir_ok e w sp = (mkdir_result e (length (dirs_created w)) (targetDir e (p_outputDir sp)) = None)"

definition item_ok :: "env \<Rightarrow> world \<Rightarrow> SaveImagesParams \<Rightarrow> nat \<Rightarrow> bool" where
  "item_ok e w sp j =
     (download_error e (length (fetched w) + j) (p_urls sp ! j) = None \<and>
      image_write e w sp j = None \<and> sidecar_write e w sp j = None)"

text \<open>Where a save call can fail: creating the directory, or the download, the image
  write or the sidecar write of item \<open>i\<close>. \<open>fails_at\<close> says that the environment makes the
  call fail there first, throwing \<open>err\<close>: everything before that step succeeds.\<close>

datatype failure_site = AtMkdir | AtDownload nat | AtImageWrite nat | AtSidecarWrite nat

fun fails_at :: "env \<Rightarrow> world \<Rightarrow> SaveImagesParams \<Rightarrow> failure_site \<Rightarrow> thrown \<Rightarrow> bool" where
  "fails_at e w sp AtMkdir err =
     (mkdir_result e (length (dirs_created w)) (targetDir e (p_outputDir sp)) = Some err)"
| "fails_at e w sp (AtDownload i) err =
     (mkdir_ok e w sp \<and> i < length (p_urls sp) \<and> (\<forall>j<i. item_ok e w sp j) \<and>
      download_error e (length (fetched w) + i) (p_urls sp ! i) = Some err)"
| "fails_at e w sp (AtImageWrite i) err =
     (mkdir_ok e w sp \<and> i < length (p_urls sp) \<and> (\<forall>j<i. item_ok e w sp j) \<and>
      download_error e (length (fetched w) + i) (p_urls sp ! i) = None \<and>
      image_write e w sp i = Some err)"
| "fails_at e w sp (AtSidecarWrite i) err =
     (mkdir_ok e w sp \<and> i < length (p_urls sp) \<and> (\<forall>j<i. item_ok e w sp j) \<and>
      download_error e (length (fetched w) + i) (p_urls sp ! i) = None \<and>
      image_write e w sp i = None \<and> sidecar_write e w sp i = Some err)"

section \<open>Example environments and requests\<close>

definition fresh_world :: world where
  "fresh_world = \<lparr>dirs_created = [], fetched = [], clock_reads = [], files_written = [],
                   provider_calls = []\<rparr>"

definition png_response :: response where
  "png_response = \<lparr>status = 200, arrayBuffer = Inr [137, 80, 78, 71]\<rparr>"

text \<open>Everything succeeds; a millisecond passes between two readings of the clock.\<close>

definition ok_env :: env where
  "ok_env = \<lparr>cwd = ''/srv'', OPENAI_API_KEY = Some ''sk-test'',
             mkdir_result = (\<lambda>k path. None),
             fetch_result = (\<lambda>k url. Inr png_response),
             now = (\<lambda>k. 1000 + int k),
             writeFile_result = (\<lambda>k path c. None),
             generate_result = (\<lambda>k rq.
               Inr [\<lparr>img_url = Some ''http://x/1.png'', img_revised_prompt = Some ''A crimson fox''\<rparr>,
                    \<lparr>img_url = Some ''http://x/2.png'', img_revised_prompt = None\<rparr>])\<rparr>"

definition fox_save :: SaveImagesParams where
  "fox_save = \<lparr>p_urls = [''http://x/1.png'', ''http://x/2.png''], p_prompt = ''A Red Fox!!'',
               p_revisedPrompts = None, p_outputDir = Some ''/tmp/out''\<rparr>"

definition fox_generate :: ImageGenerationParams where
  "fox_generate = \<lparr>g_prompt = ''a red fox'', g_size = S1024x1024, g_quality = Standard,
                   g_style = Vivid, g_n = 2\<rparr>"

text \<open>The fox request with one revised prompt for its two URLs.\<close>

definition fox_revised :: SaveImagesParams where
  "fox_revised = fox_save\<lparr>p_revisedPrompts := Some [''A crimson fox'']\<rparr>"

text \<open>The same environment with a clock that stands still.\<close>

definition frozen_env :: env where
  "frozen_env = ok_env\<lparr>now := (\<lambda>k. 1000)\<rparr>"

text \<open>Requests without URLs: the output directory given as the empty string, and not given.\<close>

definition empty_dir_save :: SaveImagesParams where
  "empty_dir_save = \<lparr>p_urls = [], p_prompt = ''A Red Fox!!'', p_revisedPrompts = None,
                     p_outputDir = Some []\<rparr>"

definition default_dir_save :: SaveImagesParams where
  "default_dir_save = \<lparr>p_urls = [], p_prompt = ''A Red Fox!!'', p_revisedPrompts = None,
                       p_outputDir = None\<rparr>"

text \<open>The second request is answered with status 404 and an error page.\<close>

definition not_found_env :: env where
  "not_found_env = ok_env\<lparr>fetch_result := (\<lambda>k url.
     if k = 1 then Inr \<lparr>status = 404, arrayBuffer = Inr [60, 104, 49, 62]\<rparr> else Inr png_response)\<rparr>"

text \<open>The second request fails at the network level.\<close>

definition reset_env :: env where
  "reset_env = ok_env\<lparr>fetch_result := (\<lambda>k url.
     if k = 1 then Inl (Error ''socket hang up'') else Inr png_response)\<rparr>"

text \<open>Every request is rejected with a string instead of an \<^verbatim>\<open>Error\<close>.\<close>

definition string_throw_env :: env where
  "string_throw_env = ok_env\<lparr>fetch_result := (\<lambda>k url. Inl (NonError ''timeout''))\<rparr>"

text \<open>No credential in the environment; and a provider that rejects every call.\<close>

definition no_key_env :: env where
  "no_key_env = ok_env\<lparr>OPENAI_API_KEY := None\<rparr>"

definition provider_down_env :: env where
  "provider_down_env = ok_env\<lparr>generate_result := (\<lambda>k rq. Inl (Error ''429 Too Many Requests''))\<rparr>"

text \<open>Creating the directory is refused; the third write fails (the image of the second
  item); the second write fails (the sidecar of the first item).\<close>

definition denied_env :: env where
  "denied_env = ok_env\<lparr>mkdir_result := (\<lambda>k path. Some (Error ''EACCES''))\<rparr>"

definition disk_full_env :: env where
  "disk_full_env = ok_env\<lparr>writeFile_result := (\<lambda>k path c.
     if k = 2 then Some (Error ''ENOSPC'') else None)\<rparr>"

definition sidecar_fail_env :: env where
  "sidecar_fail_env = ok_env\<lparr>writeFile_result := (\<lambda>k path c.
     if k = 1 then Some (Error ''EIO'') else None)\<rparr>"

section \<open>Characters and decimal numerals\<close>

lemma char_of_code_iff: "(char_of (n::nat) = c) = (n mod 256 = code c)"
  unfolding code_def by (metis char_of_char char_of_mod_256 of_char_of)

lemma slice_take: "slice s 0 k = take k s"
  by (simp add: slice_def Let_def min_def)

lemma sanitize_char:
  "lower_char (if alnum c then c else CHR ''-'') =
   spec_lowercase (if c \<in> spec_allowed then c else CHR ''-'')"
proof (cases c)
  case (Char b0 b1 b2 b3 b4 b5 b6 b7)
  show ?thesis
    unfolding Char
    by (cases b0; cases b1; cases b2; cases b3; cases b4; cases b5; cases b6; cases b7;
        simp add: lower_char_def alnum_def char_of_code_iff code_def spec_allowed_def
          spec_lowercase_def Let_def)
qed

lemma show_nat_small: "n < 10 \<Longrightarrow> show_nat n = [digit_char n]"
  by (subst show_nat.simps) simp

lemma show_nat_big: "10 \<le> n \<Longrightarrow> show_nat n = show_nat (n div 10) @ [digit_char (n mod 10)]"
  by (subst show_nat.simps) simp

lemmas eval_filename =
  filename_def safePrompt_def toLowerCase_def replace_non_alnum_def slice_take lower_char_def
  alnum_def code_def show_int_def show_nat_small show_nat_big digit_char_def char_of_code_iff

lemma code_char_of: "code (char_of n) = n mod 256"
  by (simp add: code_def)

lemma code_digit_char: "d < 10 \<Longrightarrow> code (digit_char d) = 48 + d"
  by (simp add: digit_char_def code_char_of)

lemma show_nat_digits: "\<forall>c \<in> set (show_nat n). is_digit c"
proof (induction n rule: show_nat.induct)
  case (1 n)
  show ?case
  proof (cases "n < 10")
    case True
    then show ?thesis
      by (subst show_nat.simps) (simp add: is_digit_def code_digit_char)
  next
    case False
    have "n mod 10 < 10" by simp
    then have "is_digit (digit_char (n mod 10))"
      by (simp add: is_digit_def code_digit_char)
    with False 1 show ?thesis
      by (subst show_nat.simps) simp
  qed
qed

lemma read_nat_snoc: "read_nat (s @ [c]) = 10 * read_nat s + digit_val c"
  by (simp add: read_nat_def)

lemma read_show_nat: "read_nat (show_nat n) = n"
proof (induction n rule: show_nat.induct)
  case (1 n)
  show ?case
  proof (cases "n < 10")
    case True
    then show ?thesis
      by (subst show_nat.simps) (simp add: read_nat_def digit_val_def code_digit_char)
  next
    case False
    have "digit_val (digit_char (n mod 10)) = n mod 10"
      by (simp add: digit_val_def code_digit_char)
    with False 1 show ?thesis
      by (subst show_nat.simps) (simp add: read_nat_snoc)
  qed
qed

lemma show_nat_inj: "show_nat m = show_nat n \<Longrightarrow> m = n"
  by (metis read_show_nat)

section \<open>File names differ by their index\<close>

lemma suffix_after_last:
  assumes "xs @ c # ys = xs' @ c # ys'" "c \<notin> set ys" "c \<notin> set ys'"
  shows "ys = ys'"
proof -
  have "takeWhile (\<lambda>x. x \<noteq> c) (rev (xs @ c # ys)) = rev ys"
    using assms(2) by (auto simp add: takeWhile_tail)
  moreover have "takeWhile (\<lambda>x. x \<noteq> c) (rev (xs' @ c # ys')) = rev ys'"
    using assms(3) by (auto simp add: takeWhile_tail)
  ultimately show ?thesis using assms(1) by (metis rev_is_rev_conv)
qed

lemma hyphen_not_digit: "\<not> is_digit CHR ''-''"
  by (simp add: is_digit_def code_def)

lemma filename_index_inj:
  assumes "filename p t i = filename p' t' j"
  shows "i = j"
proof -
  let ?A = "safePrompt p @ ''-'' @ show_int t"
  let ?B = "safePrompt p' @ ''-'' @ show_int t'"
  have "(?A @ CHR ''-'' # show_nat i) @ ''.png'' = (?B @ CHR ''-'' # show_nat j) @ ''.png''"
    using assms by (simp add: filename_def)
  then have "?A @ CHR ''-'' # show_nat i = ?B @ CHR ''-'' # show_nat j"
    by (simp only: append_same_eq)
  moreover have "CHR ''-'' \<notin> set (show_nat i)" "CHR ''-'' \<notin> set (show_nat j)"
    using show_nat_digits hyphen_not_digit by blast+
  ultimately have "show_nat i = show_nat j"
    by (rule suffix_after_last)
  then show ?thesis by (rule show_nat_inj)
qed

lemma filenames_distinct: "distinct (map (\<lambda>j. filename p (ts j) j) [0..<k])"
proof (induction k)
  case 0
  show ?case by simp
next
  case (Suc k)
  then show ?case by (auto dest: filename_index_inj)
qed

section \<open>Joining a directory and a file name\<close>

lemma segments_nonempty: "segments s \<noteq> []"
  by (induction s) (auto split: list.splits)

lemma segments_no_slash: "CHR ''/'' \<notin> set s \<Longrightarrow> segments s = [s]"
  by (induction s) auto

lemma segments_append_slash: "segments (a @ CHR ''/'' # b) = segments a @ segments b"
proof (induction a)
  case Nil
  show ?case by simp
next
  case (Cons c a)
  show ?case
  proof (cases "c = CHR ''/''")
    case True
    with Cons show ?thesis by simp
  next
    case False
    obtain s ss where "segments a = s # ss"
      using segments_nonempty [of a] by (cases "segments a") auto
    with False Cons show ?thesis by simp
  qed
qed

lemma join_snoc: "join sep (xs @ [x]) = (if xs = [] then x else join sep xs @ sep @ x)"
  by (induction sep xs rule: join.induct) auto

lemma path_join_plain:
  assumes "dir \<noteq> []" "plain f"
  shows "path_join [dir, f] = dir_prefix dir @ f"
proof -
  from assms(2) have f: "f \<noteq> []" "CHR ''/'' \<notin> set f" "f \<noteq> ''.''" "f \<noteq> ''..''"
    by (simp_all add: plain_def)
  let ?joined = "dir @ CHR ''/'' # f"
  let ?abs = "hd dir = CHR ''/''"
  let ?res = "foldl (push_segment (\<not> ?abs)) [] (segments dir)"
  have joined: "join ''/'' (filter (\<lambda>a. a \<noteq> []) [dir, f]) = ?joined"
    using assms(1) f(1) by simp
  have hd: "hd ?joined = hd dir" using assms(1) by simp
  have last: "last ?joined = last f" using f(1) by simp
  have nolast: "last f \<noteq> CHR ''/''" using f(1,2) last_in_set by metis
  have "segments ?joined = segments dir @ [f]"
    using f(2) by (simp add: segments_append_slash segments_no_slash)
  then have "foldl (push_segment (\<not> ?abs)) [] (segments ?joined) = ?res @ [f]"
    using f by (simp add: push_segment_def)
  then have ns: "normalizeString ?joined (\<not> ?abs) = (if ?res = [] then f else join ''/'' ?res @ ''/'' @ f)"
    by (simp add: normalizeString_def join_snoc)
  then have ne: "normalizeString ?joined (\<not> ?abs) \<noteq> []"
    using f(1) by simp
  have "normalize ?joined = (if ?abs then ''/'' else []) @ normalizeString ?joined (\<not> ?abs)"
    using ne nolast by (simp add: normalize_def Let_def hd last del: hd_append2 last_appendR)
  then show ?thesis
    unfolding path_join_def joined Let_def dir_prefix_def using ns by simp
qed

lemma lower_char_alnum_or_hyphen:
  "code (lower_char (if alnum c then c else CHR ''-'')) \<notin> {46, 47}"
  apply (simp add: lower_char_def alnum_def Let_def code_char_of)
  apply (auto simp add: code_def)
  done

lemma safePrompt_no_slash: "CHR ''/'' \<notin> set (safePrompt p)"
proof
  assume "CHR ''/'' \<in> set (safePrompt p)"
  then obtain c where eq: "lower_char (if alnum c then c else CHR ''-'') = CHR ''/''"
    by (auto simp add: safePrompt_def toLowerCase_def replace_non_alnum_def)
  have "code CHR ''/'' = 47"
    by (simp add: code_def)
  then have "code (lower_char (if alnum c then c else CHR ''-'')) = 47"
    by (simp only: eq)
  with lower_char_alnum_or_hyphen [of c] show False by simp
qed

lemma digit_not_slash: "is_digit c \<Longrightarrow> c \<noteq> CHR ''/''"
  by (auto simp add: is_digit_def code_def)

lemma show_nat_no_slash: "CHR ''/'' \<notin> set (show_nat n)"
  using show_nat_digits digit_not_slash by blast

lemma show_int_no_slash: "CHR ''/'' \<notin> set (show_int t)"
  using show_nat_no_slash by (simp add: show_int_def)

lemma filename_plain: "plain (filename p t i)"
proof -
  have "CHR ''/'' \<notin> set (filename p t i)"
    using safePrompt_no_slash show_int_no_slash show_nat_no_slash
    by (simp add: filename_def)
  moreover have "length (filename p t i) \<ge> 4"
    by (simp add: filename_def)
  ultimately show ?thesis
    by (auto simp add: plain_def)
qed

lemma normalize_nonempty: "normalize path \<noteq> []"
  by (simp add: normalize_def Let_def)

lemma path_join_nonempty: "path_join args \<noteq> []"
  by (simp add: path_join_def Let_def normalize_nonempty)

lemma targetDir_nonempty: "targetDir e outputDir \<noteq> []"
  by (simp add: targetDir_def or_else_def path_join_nonempty split: option.splits)

section \<open>The save loop\<close>

lemma save_loop_done:
  "length urls \<le> i \<Longrightarrow> save_loop e urls rps prompt dir i saved w = (Inr saved, w)"
  by (subst save_loop.simps) simp

lemma save_loop_download_fails:
  assumes "i < length urls" "download_error e (length (fetched w)) (urls ! i) = Some err"
  shows "save_loop e urls rps prompt dir i saved w = (Inl err, w\<lparr>fetched := fetched w @ [urls ! i]\<rparr>)"
  using assms
  by (subst save_loop.simps)
     (simp add: fetch_def download_error_def split: sum.splits)

lemma save_loop_step:
  assumes "i < length urls" "download_error e (length (fetched w)) (urls ! i) = None" "writes_ok e"
    "length (fetched w) = F + i" "length (clock_reads w) = T + i"
  shows "save_loop e urls rps prompt dir i saved w =
         save_loop e urls rps prompt dir (Suc i) (saved @ [item_path e T prompt dir i])
           (after_items e F T urls rps prompt dir i (Suc i) w)"
  using assms
  by (subst save_loop.simps)
     (simp add: fetch_def download_error_def downloaded_def writes_ok_def Date_now_def
        fs_writeFile_def item_path_def item_name_def item_files_def after_items_def Let_def
      split: sum.splits)

lemma after_items_empty: "after_items e F T urls rps prompt dir i i w = w"
  by (simp add: after_items_def)

lemma after_items_Suc:
  "i \<le> k \<Longrightarrow> after_items e F T urls rps prompt dir k (Suc k) (after_items e F T urls rps prompt dir i k w)
     = after_items e F T urls rps prompt dir i (Suc k) w"
  by (simp add: after_items_def)

lemma after_items_lengths:
  "i \<le> k \<Longrightarrow> length (fetched (after_items e F T urls rps prompt dir i k w)) = length (fetched w) + (k - i)"
  "i \<le> k \<Longrightarrow> length (clock_reads (after_items e F T urls rps prompt dir i k w)) = length (clock_reads w) + (k - i)"
  by (simp_all add: after_items_def)

lemma save_loop_advance:
  assumes "i \<le> k" "k \<le> length urls" "writes_ok e"
    "length (fetched w) = F + i" "length (clock_reads w) = T + i"
    "\<forall>j. i \<le> j \<and> j < k \<longrightarrow> download_error e (F + j) (urls ! j) = None"
  shows "save_loop e urls rps prompt dir i saved w =
         save_loop e urls rps prompt dir k (saved @ map (item_path e T prompt dir) [i..<k])
           (after_items e F T urls rps prompt dir i k w)"
  using assms(1,2,6)
proof (induction k rule: dec_induct)
  case base
  show ?case by (simp add: after_items_empty)
next
  case (step m)
  let ?w = "after_items e F T urls rps prompt dir i m w"
  have len: "length (fetched ?w) = F + m" "length (clock_reads ?w) = T + m"
    using step.hyps(1) assms(4,5) by (simp_all add: after_items_lengths)
  have ok: "download_error e (length (fetched ?w)) (urls ! m) = None"
    using step.prems(2) step.hyps(1) len by simp
  have "save_loop e urls rps prompt dir i saved w =
        save_loop e urls rps prompt dir m (saved @ map (item_path e T prompt dir) [i..<m]) ?w"
    using step by simp
  also have "\<dots> = save_loop e urls rps prompt dir (Suc m)
                     ((saved @ map (item_path e T prompt dir) [i..<m]) @ [item_path e T prompt dir m])
                     (after_items e F T urls rps prompt dir m (Suc m) ?w)"
    using step.prems(1) ok assms(3) len by (intro save_loop_step) simp_all
  finally show ?case
    using step.hyps(1) by (simp add: after_items_Suc)
qed

section \<open>saveGeneratedImages and saveImages, run to the end or to a failed download\<close>

lemma saveGeneratedImages_mkdir_fails:
  assumes "mkdir_result e (length (dirs_created w)) (targetDir e outputDir) = Some err"
  shows "saveGeneratedImages e urls rps prompt outputDir w =
         (Inl (Error (''Failed to create directory: '' @ error_text err)), w)"
  using assms by (simp add: saveGeneratedImages_def fs_mkdir_def)

lemma saveGeneratedImages_loop:
  assumes "mkdir_result e (length (dirs_created w)) (targetDir e outputDir) = None"
  shows "saveGeneratedImages e urls rps prompt outputDir w =
         save_loop e urls rps prompt (targetDir e outputDir) 0 []
           (w\<lparr>dirs_created := dirs_created w @ [targetDir e outputDir]\<rparr>)"
  using assms by (simp add: saveGeneratedImages_def fs_mkdir_def)

lemma saveGeneratedImages_ok:
  assumes mk: "mkdir_result e (length (dirs_created w)) (targetDir e outputDir) = None"
    and dl: "\<forall>j<length urls. download_error e (length (fetched w) + j) (urls ! j) = None"
    and wr: "writes_ok e"
  shows "saveGeneratedImages e urls rps prompt outputDir w =
         (Inr (map (item_path e (length (clock_reads w)) prompt (targetDir e outputDir)) [0..<length urls]),
          after_items e (length (fetched w)) (length (clock_reads w)) urls rps prompt
            (targetDir e outputDir) 0 (length urls)
            (w\<lparr>dirs_created := dirs_created w @ [targetDir e outputDir]\<rparr>))"
proof -
  let ?w1 = "w\<lparr>dirs_created := dirs_created w @ [targetDir e outputDir]\<rparr>"
  have "save_loop e urls rps prompt (targetDir e outputDir) 0 [] ?w1 =
        save_loop e urls rps prompt (targetDir e outputDir) (length urls)
          ([] @ map (item_path e (length (clock_reads w)) prompt (targetDir e outputDir)) [0..<length urls])
          (after_items e (length (fetched w)) (length (clock_reads w)) urls rps prompt
            (targetDir e outputDir) 0 (length urls) ?w1)"
    using dl wr by (intro save_loop_advance) simp_all
  then show ?thesis
    by (simp add: saveGeneratedImages_loop [OF mk] save_loop_done)
qed

lemma saveGeneratedImages_download_fails:
  assumes mk: "mkdir_result e (length (dirs_created w)) (targetDir e outputDir) = None"
    and i: "i < length urls"
    and dl: "\<forall>j<i. download_error e (length (fetched w) + j) (urls ! j) = None"
    and wr: "writes_ok e"
    and fail: "download_error e (length (fetched w) + i) (urls ! i) = Some err"
  shows "saveGeneratedImages e urls rps prompt outputDir w =
         (Inl err,
          (after_items e (length (fetched w)) (length (clock_reads w)) urls rps prompt
            (targetDir e outputDir) 0 i
            (w\<lparr>dirs_created := dirs_created w @ [targetDir e outputDir]\<rparr>))
          \<lparr>fetched := fetched w @ map ((!) urls) [0..<Suc i]\<rparr>)"
proof -
  let ?w1 = "w\<lparr>dirs_created := dirs_created w @ [targetDir e outputDir]\<rparr>"
  let ?w2 = "after_items e (length (fetched w)) (length (clock_reads w)) urls rps prompt
            (targetDir e outputDir) 0 i ?w1"
  have adv: "save_loop e urls rps prompt (targetDir e outputDir) 0 [] ?w1 =
        save_loop e urls rps prompt (targetDir e outputDir) i
          ([] @ map (item_path e (length (clock_reads w)) prompt (targetDir e outputDir)) [0..<i]) ?w2"
    using dl wr i by (intro save_loop_advance) simp_all
  have len: "length (fetched ?w2) = length (fetched w) + i"
    by (simp add: after_items_def)
  have "save_loop e urls rps prompt (targetDir e outputDir) i
          ([] @ map (item_path e (length (clock_reads w)) prompt (targetDir e outputDir)) [0..<i]) ?w2
        = (Inl err, ?w2\<lparr>fetched := fetched ?w2 @ [urls ! i]\<rparr>)"
    using i fail len by (intro save_loop_download_fails) simp_all
  moreover have "?w2\<lparr>fetched := fetched ?w2 @ [urls ! i]\<rparr> = ?w2\<lparr>fetched := fetched w @ map ((!) urls) [0..<Suc i]\<rparr>"
    by (simp add: after_items_def)
  ultimately show ?thesis
    using adv by (simp add: saveGeneratedImages_loop [OF mk])
qed

lemma stringify_metadata:
  "JSON_stringify 2 (metadata prompt rp url t fname) = JSON_stringify 2 (sidecar prompt rp url t fname)"
  by (cases rp) (simp_all add: JSON_stringify_def metadata_def sidecar_def opt_str_def)

lemma js_index_passed:
  "js_index (passed_revisedPrompts params) j = revised_at params j"
  by (auto simp add: js_index_def passed_revisedPrompts_def revised_at_def split: option.splits)

lemma item_files_saved:
  "item_files e (length (fetched w)) (length (clock_reads w)) (p_urls params)
      (passed_revisedPrompts params) (p_prompt params) (targetDir e (p_outputDir params)) j
   = saved_files e w params j"
  by (simp add: item_files_def saved_files_def image_path_def item_path_def item_name_def
        stringify_metadata js_index_passed)

lemma item_path_image:
  "item_path e (length (clock_reads w)) (p_prompt params) (targetDir e (p_outputDir params)) j
   = image_path e w params j"
  by (simp add: item_path_def item_name_def image_path_def)

lemma saveImages_of_paths:
  assumes "saveGeneratedImages e (p_urls params) (passed_revisedPrompts params) (p_prompt params)
             (p_outputDir params) w = (Inr paths, w')"
  shows "saveImages e params w = (Inr (success_envelope paths (saved_message params (length paths))), w')"
  using assms
  by (simp add: saveImages_def passed_revisedPrompts_def success_envelope_def saved_message_def)

lemma saveImages_of_Error:
  assumes "saveGeneratedImages e (p_urls params) (passed_revisedPrompts params) (p_prompt params)
             (p_outputDir params) w = (Inl (Error m), w')"
  shows "saveImages e params w = (Inr (error_envelope (''Failed to save images: '' @ m)), w')"
  using assms
  by (simp add: saveImages_def passed_revisedPrompts_def error_envelope_def)

lemma saveImages_of_NonError:
  assumes "saveGeneratedImages e (p_urls params) (passed_revisedPrompts params) (p_prompt params)
             (p_outputDir params) w = (Inl (NonError v), w')"
  shows "saveImages e params w = (Inl (NonError v), w')"
  using assms
  by (simp add: saveImages_def passed_revisedPrompts_def)

lemma saveImages_ok:
  assumes mk: "mkdir_result e (length (dirs_created w)) (targetDir e (p_outputDir params)) = None"
    and dl: "\<forall>j<length (p_urls params).
               download_error e (length (fetched w) + j) (p_urls params ! j) = None"
    and wr: "writes_ok e"
  shows "saveImages e params w =
         (Inr (success_envelope (map (image_path e w params) [0..<length (p_urls params)])
                 (saved_message params (length (p_urls params)))),
          w\<lparr>dirs_created := dirs_created w @ [targetDir e (p_outputDir params)],
            fetched := fetched w @ p_urls params,
            clock_reads := clock_reads w
               @ map (\<lambda>j. now e (length (clock_reads w) + j)) [0..<length (p_urls params)],
            files_written := files_written w
               @ concat (map (saved_files e w params) [0..<length (p_urls params)])\<rparr>)"
proof -
  have "saveGeneratedImages e (p_urls params) (passed_revisedPrompts params) (p_prompt params)
          (p_outputDir params) w =
        (Inr (map (image_path e w params) [0..<length (p_urls params)]),
         w\<lparr>dirs_created := dirs_created w @ [targetDir e (p_outputDir params)],
            fetched := fetched w @ p_urls params,
            clock_reads := clock_reads w
               @ map (\<lambda>j. now e (length (clock_reads w) + j)) [0..<length (p_urls params)],
            files_written := files_written w
               @ concat (map (saved_files e w params) [0..<length (p_urls params)])\<rparr>)"
    unfolding saveGeneratedImages_ok [OF mk dl wr]
    by (simp add: after_items_def item_files_saved item_path_image map_nth cong: map_cong)
  from saveImages_of_paths [OF this] show ?thesis by simp
qed

lemma map_nth_upt_take: "k \<le> length xs \<Longrightarrow> map ((!) xs) [0..<k] = take k xs"
  by (rule nth_equalityI) simp_all

lemma saveImages_download_fails:
  assumes mk: "mkdir_result e (length (dirs_created w)) (targetDir e (p_outputDir params)) = None"
    and i: "i < length (p_urls params)"
    and dl: "\<forall>j<i. download_error e (length (fetched w) + j) (p_urls params ! j) = None"
    and wr: "writes_ok e"
    and fail: "download_error e (length (fetched w) + i) (p_urls params ! i) = Some (Error m)"
  shows "saveImages e params w =
         (Inr (error_envelope (''Failed to save images: '' @ m)),
          w\<lparr>dirs_created := dirs_created w @ [targetDir e (p_outputDir params)],
            fetched := fetched w @ take (Suc i) (p_urls params),
            clock_reads := clock_reads w @ map (\<lambda>j. now e (length (clock_reads w) + j)) [0..<i],
            files_written := files_written w @ concat (map (saved_files e w params) [0..<i])\<rparr>)"
proof -
  have "map ((!) (p_urls params)) [0..<Suc i] = take (Suc i) (p_urls params)"
    using i by (intro map_nth_upt_take) simp
  then have "saveGeneratedImages e (p_urls params) (passed_revisedPrompts params) (p_prompt params)
          (p_outputDir params) w =
        (Inl (Error m),
         w\<lparr>dirs_created := dirs_created w @ [targetDir e (p_outputDir params)],
            fetched := fetched w @ take (Suc i) (p_urls params),
            clock_reads := clock_reads w @ map (\<lambda>j. now e (length (clock_reads w) + j)) [0..<i],
            files_written := files_written w @ concat (map (saved_files e w params) [0..<i])\<rparr>)"
    unfolding saveGeneratedImages_download_fails [OF mk i dl wr fail]
    by (simp add: after_items_def item_files_saved cong: map_cong)
  from saveImages_of_Error [OF this] show ?thesis .
qed

section \<open>The paths one call writes\<close>

lemma image_path_split:
  "image_path e w params j =
   dir_prefix (targetDir e (p_outputDir params))
     @ filename (p_prompt params) (now e (length (clock_reads w) + j)) j"
  by (simp add: image_path_def path_join_plain targetDir_nonempty filename_plain)

lemma image_path_index_inj: "image_path e w params i = image_path e w params j \<Longrightarrow> i = j"
  by (auto simp add: image_path_split dest: filename_index_inj)

lemma image_path_last: "last (image_path e w params j) = CHR ''g''"
  by (simp add: image_path_split filename_def)

lemma image_path_not_sidecar: "image_path e w params i \<noteq> image_path e w params j @ ''.json''"
proof
  assume "image_path e w params i = image_path e w params j @ ''.json''"
  then have "last (image_path e w params i) = last (image_path e w params j @ ''.json'')"
    by simp
  then show False by (simp add: image_path_last)
qed

lemma written_paths_distinct:
  "distinct (concat (map (\<lambda>j. [image_path e w params j, image_path e w params j @ ''.json'']) [0..<k]))"
proof (induction k)
  case 0
  show ?case by simp
next
  case (Suc k)
  have "i < k \<Longrightarrow> image_path e w params i \<noteq> image_path e w params k" for i
    using image_path_index_inj by blast
  moreover have "image_path e w params j @ ''.json'' \<noteq> image_path e w params i" for i j
    using image_path_not_sidecar [of e w params i j] by simp
  ultimately show ?case
    using Suc image_path_not_sidecar [of e w params]
    by (auto dest: image_path_index_inj)
qed

section \<open>The save loop with a failing write\<close>

lemma download_ok_response:
  assumes "download_error e k url = None"
  obtains resp where "fetch_result e k url = Inr resp" "arrayBuffer resp = Inr (downloaded e k url)"
  using assms by (auto simp add: download_error_def downloaded_def split: sum.splits)

lemma save_loop_step_w:
  assumes "i < length urls" "download_error e (F + i) (urls ! i) = None"
    "item_image_write e F T W urls prompt dir i = None"
    "item_sidecar_write e F T W urls rps prompt dir i = None"
    "length (fetched w) = F + i" "length (clock_reads w) = T + i"
    "length (files_written w) = W + 2 * i"
  shows "save_loop e urls rps prompt dir i saved w =
         save_loop e urls rps prompt dir (Suc i) (saved @ [item_path e T prompt dir i])
           (after_items e F T urls rps prompt dir i (Suc i) w)"
proof -
  from assms(2) obtain resp where resp: "fetch_result e (F + i) (urls ! i) = Inr resp"
      "arrayBuffer resp = Inr (downloaded e (F + i) (urls ! i))"
    by (rule download_ok_response)
  with assms show ?thesis
    by (subst save_loop.simps)
       (simp add: fetch_def item_image_write_def item_sidecar_write_def Date_now_def
          fs_writeFile_def item_path_def item_name_def item_files_def after_items_def Let_def)
qed

lemma save_loop_image_write_fails:
  assumes "i < length urls" "download_error e (F + i) (urls ! i) = None"
    "item_image_write e F T W urls prompt dir i = Some err"
    "length (fetched w) = F + i" "length (clock_reads w) = T + i"
    "length (files_written w) = W + 2 * i"
  shows "save_loop e urls rps prompt dir i saved w =
         (Inl err, w\<lparr>fetched := fetched w @ [urls ! i],
                     clock_reads := clock_reads w @ [now e (T + i)]\<rparr>)"
proof -
  from assms(2) obtain resp where resp: "fetch_result e (F + i) (urls ! i) = Inr resp"
      "arrayBuffer resp = Inr (downloaded e (F + i) (urls ! i))"
    by (rule download_ok_response)
  with assms show ?thesis
    by (subst save_loop.simps)
       (simp add: fetch_def item_image_write_def Date_now_def fs_writeFile_def item_path_def
          item_name_def Let_def)
qed

lemma save_loop_sidecar_write_fails:
  assumes "i < length urls" "download_error e (F + i) (urls ! i) = None"
    "item_image_write e F T W urls prompt dir i = None"
    "item_sidecar_write e F T W urls rps prompt dir i = Some err"
    "length (fetched w) = F + i" "length (clock_reads w) = T + i"
    "length (files_written w) = W + 2 * i"
  shows "save_loop e urls rps prompt dir i saved w =
         (Inl err, w\<lparr>fetched := fetched w @ [urls ! i],
                     clock_reads := clock_reads w @ [now e (T + i)],
                     files_written := files_written w
                        @ [(item_path e T prompt dir i, Binary (downloaded e (F + i) (urls ! i)))]\<rparr>)"
proof -
  from assms(2) obtain resp where resp: "fetch_result e (F + i) (urls ! i) = Inr resp"
      "arrayBuffer resp = Inr (downloaded e (F + i) (urls ! i))"
    by (rule download_ok_response)
  with assms show ?thesis
    by (subst save_loop.simps)
       (simp add: fetch_def item_image_write_def item_sidecar_write_def Date_now_def
          fs_writeFile_def item_path_def item_name_def Let_def)
qed

lemma length_concat_item_files:
  "length (concat (map (item_files e F T urls rps prompt dir) js)) = 2 * length js"
  by (induction js) (simp_all add: item_files_def)

lemma after_items_written_length:
  "i \<le> k \<Longrightarrow>
   length (files_written (after_items e F T urls rps prompt dir i k w)) =
   length (files_written w) + 2 * (k - i)"
  by (simp add: after_items_def length_concat_item_files)

lemma save_loop_advance_w:
  assumes "i \<le> k" "k \<le> length urls"
    "length (fetched w) = F + i" "length (clock_reads w) = T + i"
    "length (files_written w) = W + 2 * i"
    "\<forall>j. i \<le> j \<and> j < k \<longrightarrow>
       download_error e (F + j) (urls ! j) = None \<and>
       item_image_write e F T W urls prompt dir j = None \<and>
       item_sidecar_write e F T W urls rps prompt dir j = None"
  shows "save_loop e urls rps prompt dir i saved w =
         save_loop e urls rps prompt dir k (saved @ map (item_path e T prompt dir) [i..<k])
           (after_items e F T urls rps prompt dir i k w)"
  using assms(1,2,6)
proof (induction k rule: dec_induct)
  case base
  show ?case by (simp add: after_items_empty)
next
  case (step m)
  let ?w = "after_items e F T urls rps prompt dir i m w"
  have len: "length (fetched ?w) = F + m" "length (clock_reads ?w) = T + m"
    "length (files_written ?w) = W + 2 * m"
    using step.hyps(1) assms(3,4,5)
    by (simp_all add: after_items_lengths after_items_written_length)
  have ok: "download_error e (F + m) (urls ! m) = None"
    "item_image_write e F T W urls prompt dir m = None"
    "item_sidecar_write e F T W urls rps prompt dir m = None"
    using step.prems(2) step.hyps(1) by simp_all
  have "save_loop e urls rps prompt dir i saved w =
        save_loop e urls rps prompt dir m (saved @ map (item_path e T prompt dir) [i..<m]) ?w"
    using step by simp
  also have "\<dots> = save_loop e urls rps prompt dir (Suc m)
                     ((saved @ map (item_path e T prompt dir) [i..<m]) @ [item_path e T prompt dir m])
                     (after_items e F T urls rps prompt dir m (Suc m) ?w)"
    using step.prems(1) ok len by (intro save_loop_step_w) simp_all
  finally show ?case
    using step.hyps(1) by (simp add: after_items_Suc)
qed

section \<open>Where a save call fails\<close>

lemma item_image_write_eq:
  "item_image_write e (length (fetched w)) (length (clock_reads w)) (length (files_written w))
     (p_urls sp) (p_prompt sp) (targetDir e (p_outputDir sp)) j = image_write e w sp j"
  by (simp add: item_image_write_def image_write_def item_path_image)

lemma item_sidecar_write_eq:
  "item_sidecar_write e (length (fetched w)) (length (clock_reads w)) (length (files_written w))
     (p_urls sp) (passed_revisedPrompts sp) (p_prompt sp) (targetDir e (p_outputDir sp)) j
   = sidecar_write e w sp j"
  by (simp add: item_sidecar_write_def sidecar_write_def item_path_image stringify_metadata
        js_index_passed item_name_def)

lemma saveGeneratedImages_prefix:
  assumes "mkdir_ok e w sp" "i \<le> length (p_urls sp)" "\<forall>j<i. item_ok e w sp j"
  shows "saveGeneratedImages e (p_urls sp) (passed_revisedPrompts sp) (p_prompt sp) (p_outputDir sp) w =
         save_loop e (p_urls sp) (passed_revisedPrompts sp) (p_prompt sp) (targetDir e (p_outputDir sp)) i
           (map (image_path e w sp) [0..<i])
           (after_items e (length (fetched w)) (length (clock_reads w)) (p_urls sp)
              (passed_revisedPrompts sp) (p_prompt sp) (targetDir e (p_outputDir sp)) 0 i
              (w\<lparr>dirs_created := dirs_created w @ [targetDir e (p_outputDir sp)]\<rparr>))"
proof -
  let ?w1 = "w\<lparr>dirs_created := dirs_created w @ [targetDir e (p_outputDir sp)]\<rparr>"
  have mk: "mkdir_result e (length (dirs_created w)) (targetDir e (p_outputDir sp)) = None"
    using assms(1) by (simp add: mkdir_ok_def)
  have ok: "\<forall>j. 0 \<le> j \<and> j < i \<longrightarrow>
       download_error e (length (fetched w) + j) (p_urls sp ! j) = None \<and>
       item_image_write e (length (fetched w)) (length (clock_reads w)) (length (files_written w))
         (p_urls sp) (p_prompt sp) (targetDir e (p_outputDir sp)) j = None \<and>
       item_sidecar_write e (length (fetched w)) (length (clock_reads w)) (length (files_written w))
         (p_urls sp) (passed_revisedPrompts sp) (p_prompt sp) (targetDir e (p_outputDir sp)) j = None"
    using assms(3) by (simp add: item_ok_def item_image_write_eq item_sidecar_write_eq)
  have "save_loop e (p_urls sp) (passed_revisedPrompts sp) (p_prompt sp) (targetDir e (p_outputDir sp)) 0 [] ?w1 =
        save_loop e (p_urls sp) (passed_revisedPrompts sp) (p_prompt sp) (targetDir e (p_outputDir sp)) i
          ([] @ map (item_path e (length (clock_reads w)) (p_prompt sp) (targetDir e (p_outputDir sp))) [0..<i])
          (after_items e (length (fetched w)) (length (clock_reads w)) (p_urls sp)
              (passed_revisedPrompts sp) (p_prompt sp) (targetDir e (p_outputDir sp)) 0 i ?w1)"
    using assms(2) ok
    by (intro save_loop_advance_w [where W = "length (files_written w)"]) simp_all
  then show ?thesis
    by (simp add: saveGeneratedImages_loop [OF mk] item_path_image cong: map_cong)
qed

lemma after_items_prefix_lengths:
  "length (fetched (after_items e F T urls rps prompt dir 0 i w)) = length (fetched w) + i"
  "length (clock_reads (after_items e F T urls rps prompt dir 0 i w)) = length (clock_reads w) + i"
  "length (files_written (after_items e F T urls rps prompt dir 0 i w)) = length (files_written w) + 2 * i"
  using after_items_lengths [of 0 i] after_items_written_length [of 0 i] by simp_all

lemma saveGeneratedImages_fails_at:
  assumes "fails_at e w sp site err"
  shows "fst (saveGeneratedImages e (p_urls sp) (passed_revisedPrompts sp) (p_prompt sp) (p_outputDir sp) w) =
         (case site of
            AtMkdir \<Rightarrow> Inl (Error (''Failed to create directory: '' @ error_text err))
          | _ \<Rightarrow> Inl err)"
proof (cases site)
  case AtMkdir
  with assms show ?thesis
    by (simp add: saveGeneratedImages_mkdir_fails)
next
  case (AtDownload i)
  with assms have h: "mkdir_ok e w sp" "i < length (p_urls sp)" "\<forall>j<i. item_ok e w sp j"
    "download_error e (length (fetched w) + i) (p_urls sp ! i) = Some err"
    by simp_all
  show ?thesis
    unfolding saveGeneratedImages_prefix [OF h(1) less_imp_le [OF h(2)] h(3)] AtDownload
    using h(2,4)
    by (subst save_loop_download_fails [where err = err]) (simp_all add: after_items_prefix_lengths)
next
  case (AtImageWrite i)
  with assms have h: "mkdir_ok e w sp" "i < length (p_urls sp)" "\<forall>j<i. item_ok e w sp j"
    "download_error e (length (fetched w) + i) (p_urls sp ! i) = None"
    "image_write e w sp i = Some err"
    by simp_all
  show ?thesis
    unfolding saveGeneratedImages_prefix [OF h(1) less_imp_le [OF h(2)] h(3)] AtImageWrite
    using h(2,4,5)
    by (subst save_loop_image_write_fails [where err = err and F = "length (fetched w)"
          and T = "length (clock_reads w)" and W = "length (files_written w)"])
       (simp_all add: after_items_prefix_lengths item_image_write_eq)
next
  case (AtSidecarWrite i)
  with assms have h: "mkdir_ok e w sp" "i < length (p_urls sp)" "\<forall>j<i. item_ok e w sp j"
    "download_error e (length (fetched w) + i) (p_urls sp ! i) = None"
    "image_write e w sp i = None" "sidecar_write e w sp i = Some err"
    by simp_all
  show ?thesis
    unfolding saveGeneratedImages_prefix [OF h(1) less_imp_le [OF h(2)] h(3)] AtSidecarWrite
    using h(2,4,5,6)
    by (subst save_loop_sidecar_write_fails [where err = err and F = "length (fetched w)"
          and T = "length (clock_reads w)" and W = "length (files_written w)"])
       (simp_all add: after_items_prefix_lengths item_image_write_eq item_sidecar_write_eq)
qed

lemma saveImages_fst:
  "fst (saveImages e sp w) =
   (case fst (saveGeneratedImages e (p_urls sp) (passed_revisedPrompts sp) (p_prompt sp) (p_outputDir sp) w) of
      Inr paths \<Rightarrow> Inr (success_envelope paths (saved_message sp (length paths)))
    | Inl (Error m) \<Rightarrow> Inr (error_envelope (''Failed to save images: '' @ m))
    | Inl (NonError v) \<Rightarrow> Inl (NonError v))"
  by (simp add: saveImages_def passed_revisedPrompts_def success_envelope_def saved_message_def
        error_envelope_def split: prod.splits sum.splits thrown.splits)

lemma saveImages_fails_at:
  assumes "fails_at e w sp site err"
  shows "fst (saveImages e sp w) =
         (case site of
            AtMkdir \<Rightarrow>
              Inr (error_envelope
                     (''Failed to save images: Failed to create directory: '' @ error_text err))
          | _ \<Rightarrow>
              (case err of
                 Error m \<Rightarrow> Inr (error_envelope (''Failed to save images: '' @ m))
               | NonError v \<Rightarrow> Inl (NonError v)))"
  unfolding saveImages_fst saveGeneratedImages_fails_at [OF assms]
  by (cases site; cases err) simp_all

lemma saveImages_all_ok:
  assumes "mkdir_ok e w sp" "\<forall>j<length (p_urls sp). item_ok e w sp j"
  shows "fst (saveImages e sp w) =
         Inr (success_envelope (map (image_path e w sp) [0..<length (p_urls sp)])
                (saved_message sp (length (p_urls sp))))"
  unfolding saveImages_fst saveGeneratedImages_prefix [OF assms(1) le_refl assms(2)]
  by (simp add: save_loop_done)

lemma failure_sites_exhaustive:
  "(mkdir_ok e w sp \<and> (\<forall>j<length (p_urls sp). item_ok e w sp j))
   \<or> (\<exists>site err. fails_at e w sp site err)"
proof (cases "mkdir_ok e w sp")
  case False
  then obtain err where "mkdir_result e (length (dirs_created w)) (targetDir e (p_outputDir sp)) = Some err"
    by (auto simp add: mkdir_ok_def)
  then have "fails_at e w sp AtMkdir err" by simp
  then show ?thesis by blast
next
  case True
  show ?thesis
  proof (cases "\<forall>j<length (p_urls sp). item_ok e w sp j")
    case True
    with \<open>mkdir_ok e w sp\<close> show ?thesis by blast
  next
    case False
    then have "\<exists>i. i < length (p_urls sp) \<and> \<not> item_ok e w sp i" by blast
    then obtain i where i: "i < length (p_urls sp)" "\<not> item_ok e w sp i"
      and least: "\<forall>j<i. \<not> (j < length (p_urls sp) \<and> \<not> item_ok e w sp j)"
      unfolding exists_least_iff [of "\<lambda>i. i < length (p_urls sp) \<and> \<not> item_ok e w sp i"]
      by blast
    from least i(1) have before: "\<forall>j<i. item_ok e w sp j" by auto
    show ?thesis
    proof (cases "download_error e (length (fetched w) + i) (p_urls sp ! i)")
      case (Some err)
      with True i(1) before have "fails_at e w sp (AtDownload i) err" by simp
      then show ?thesis by blast
    next
      case dl: None
      show ?thesis
      proof (cases "image_write e w sp i")
        case (Some err)
        with True i(1) before dl have "fails_at e w sp (AtImageWrite i) err" by simp
        then show ?thesis by blast
      next
        case img: None
        with dl i(2) obtain err where "sidecar_write e w sp i = Some err"
          by (auto simp add: item_ok_def)
        with True i(1) before dl img have "fails_at e w sp (AtSidecarWrite i) err" by simp
        then show ?thesis by blast
      qed
    qed
  qed
qed

section \<open>What the save functions throw\<close>

lemma errors_only_download:
  "errors_only e \<Longrightarrow> download_error e k url = Some err \<Longrightarrow> is_Error err"
  unfolding errors_only_def by (metis option.simps(5))

lemma errors_only_write:
  "errors_only e \<Longrightarrow> writeFile_result e k path c = Some err \<Longrightarrow> is_Error err"
  unfolding errors_only_def by (metis option.simps(5))

lemma errors_only_generate:
  "errors_only e \<Longrightarrow> generate_result e k rq = Inl err \<Longrightarrow> is_Error err"
  unfolding errors_only_def by (metis sum.simps(5))

lemma fs_writeFile_thrown:
  "errors_only e \<Longrightarrow> fs_writeFile e path c w = (Some err, w') \<Longrightarrow> is_Error err"
  by (auto simp add: fs_writeFile_def split: option.splits dest: errors_only_write)

lemma fetch_thrown:
  "errors_only e \<Longrightarrow> fetch e url w = (Inl err, w') \<Longrightarrow> is_Error err"
  by (auto simp add: fetch_def download_error_def dest!: errors_only_download [where url = url and k = "length (fetched w)"])

lemma body_thrown:
  "errors_only e \<Longrightarrow> fetch e url w = (Inr resp, w') \<Longrightarrow> arrayBuffer resp = Inl err \<Longrightarrow> is_Error err"
  by (auto simp add: fetch_def download_error_def dest!: errors_only_download [where url = url and k = "length (fetched w)"])

lemma save_loop_thrown:
  assumes "errors_only e"
    and "fst (save_loop e urls rps prompt dir i saved w) = Inl err"
  shows "is_Error err"
  using assms
proof (induction e urls rps prompt dir i saved w rule: save_loop.induct)
  case (1 e urls revisedPrompts prompt targetDir i savedPaths w)
  have eo: "errors_only e" and thrown: "fst (save_loop e urls revisedPrompts prompt targetDir i savedPaths w) = Inl err"
    using "1.prems" by blast+
  show ?case
  proof (cases "i < length urls")
    case False
    with thrown show ?thesis
      by (simp add: save_loop_done)
  next
    case True
    show ?thesis
    proof (cases "fetch e (urls ! i) w")
      case (Pair r w1)
      show ?thesis
      proof (cases r)
        case (Inl x)
        with thrown True Pair have "x = err"
          by (subst (asm) save_loop.simps) simp
        with fetch_thrown [OF eo] Pair Inl show ?thesis by blast
      next
        case (Inr resp)
        show ?thesis
        proof (cases "arrayBuffer resp")
          case (Inl x)
          with thrown True Pair Inr have "x = err"
            by (subst (asm) save_loop.simps) simp
          with body_thrown [OF eo] Pair Inr Inl show ?thesis by blast
        next
          case buf: (Inr buffer)
          obtain timestamp w2 where dn: "Date_now e w1 = (timestamp, w2)"
            by (cases "Date_now e w1")
          let ?path = "path_join [targetDir, filename prompt timestamp i]"
          obtain r3 w3 where wf1: "fs_writeFile e ?path (Binary buffer) w2 = (r3, w3)"
            by (cases "fs_writeFile e ?path (Binary buffer) w2")
          show ?thesis
          proof (cases r3)
            case (Some x)
            with thrown True Pair Inr buf dn wf1 have "x = err"
              by (subst (asm) save_loop.simps) simp
            with fs_writeFile_thrown [OF eo] wf1 Some show ?thesis by blast
          next
            case None
            let ?meta = "Text (JSON_stringify 2 (metadata prompt (js_index revisedPrompts i) (urls ! i)
                            timestamp (filename prompt timestamp i)))"
            obtain r4 w4 where wf2: "fs_writeFile e (?path @ ''.json'') ?meta w3 = (r4, w4)"
              by (cases "fs_writeFile e (?path @ ''.json'') ?meta w3")
            show ?thesis
            proof (cases r4)
              case (Some x)
              with thrown True Pair Inr buf dn wf1 None wf2 have "x = err"
                by (subst (asm) save_loop.simps) simp
              with fs_writeFile_thrown [OF eo] wf2 Some show ?thesis by blast
            next
              case n4: None
              have "fst (save_loop e urls revisedPrompts prompt targetDir (i + 1)
                           (savedPaths @ [?path]) w4) = Inl err"
                using thrown True Pair Inr buf dn wf1 None wf2 n4
                by (subst (asm) save_loop.simps) simp
              with "1.IH" [OF True refl refl Pair [symmetric] Inr buf dn [symmetric] refl refl
                  wf1 [symmetric, unfolded None] refl wf2 [symmetric, unfolded n4] refl eo]
              show ?thesis by blast
            qed
          qed
        qed
      qed
    qed
  qed
qed

lemma saveGeneratedImages_thrown:
  assumes "errors_only e"
    and "fst (saveGeneratedImages e urls rps prompt outputDir w) = Inl err"
  shows "is_Error err"
proof (cases "mkdir_result e (length (dirs_created w)) (targetDir e outputDir)")
  case None
  with assms show ?thesis
    by (simp add: saveGeneratedImages_loop save_loop_thrown)
next
  case (Some x)
  with assms(2) show ?thesis
    by (auto simp add: saveGeneratedImages_mkdir_fails is_Error_def)
qed

section \<open>Undefined values in serialised arrays\<close>

lemma serialize_opt_str: "serialize gap ind (opt_str x) = serialize gap ind (opt_null x)"
  by (cases x) (simp_all add: opt_str_def opt_null_def)

lemma serialize_Arr_opt:
  "serialize gap ind (Arr (map (\<lambda>x. opt_str (f x)) xs)) =
   serialize gap ind (Arr (map (\<lambda>x. opt_null (f x)) xs))"
  by (simp add: serialize_opt_str comp_def)

lemma stringify_generated:
  "JSON_stringify 0 (Obj [(''urls'', Arr (map (\<lambda>image. opt_str (img_url image)) data)),
                          (''revised_prompts'', Arr (map (\<lambda>image. opt_str (img_revised_prompt image)) data))])
   = JSON_stringify 0 (Obj [(''urls'', Arr (map (\<lambda>image. opt_null (img_url image)) data)),
                            (''revised_prompts'', Arr (map (\<lambda>image. opt_null (img_revised_prompt image)) data))])"
  by (simp add: JSON_stringify_def serialize_Arr_opt del: serialize.simps(5))

section \<open>Facts about the examples\<close>

lemma ok_env_downloads: "download_error ok_env k url = None"
  by (simp add: download_error_def ok_env_def png_response_def)

lemma ok_env_writes: "writes_ok ok_env"
  by (simp add: writes_ok_def ok_env_def)

lemma ok_env_mkdir: "mkdir_result ok_env k path = None"
  by (simp add: ok_env_def)

lemma ok_env_now: "now ok_env k = 1000 + int k"
  by (simp add: ok_env_def)

lemma fresh_world_simps:
  "dirs_created fresh_world = []" "fetched fresh_world = []" "clock_reads fresh_world = []"
  "files_written fresh_world = []" "provider_calls fresh_world = []"
  by (simp_all add: fresh_world_def)

lemma upt_2: "[0..<2] = [0, Suc 0]"
  by (simp add: upt_rec)

lemma dir_prefix_tmp_out: "dir_prefix ''/tmp/out'' = ''/tmp/out/''"
  by (simp add: dir_prefix_def push_segment_def)

lemma image_path_tmp_out:
  "p_outputDir params = Some ''/tmp/out'' \<Longrightarrow>
   image_path e w params j = ''/tmp/out/'' @ filename (p_prompt params) (now e (length (clock_reads w) + j)) j"
  by (simp add: image_path_split targetDir_def or_else_def dir_prefix_tmp_out)

lemma fox_save_simps:
  "p_urls fox_save = [''http://x/1.png'', ''http://x/2.png'']" "p_prompt fox_save = ''A Red Fox!!''"
  "p_revisedPrompts fox_save = None" "p_outputDir fox_save = Some ''/tmp/out''"
  by (simp_all add: fox_save_def)

lemma fox_revised_simps:
  "p_urls fox_revised = [''http://x/1.png'', ''http://x/2.png'']" "p_prompt fox_revised = ''A Red Fox!!''"
  "p_revisedPrompts fox_revised = Some [''A crimson fox'']" "p_outputDir fox_revised = Some ''/tmp/out''"
  by (simp_all add: fox_revised_def fox_save_def)

lemma fox_name: "filename ''A Red Fox!!'' t j = ''a-red-fox---'' @ show_int t @ ''-'' @ show_nat j @ ''.png''"
  by (simp add: filename_def safePrompt_def toLowerCase_def replace_non_alnum_def slice_take
        lower_char_def alnum_def code_def char_of_code_iff)

lemma show_1000: "show_int 1000 = ''1000''" "show_int 1001 = ''1001''" "show_nat 0 = ''0''"
  "show_nat (Suc 0) = ''1''" "show_nat 2 = ''2''"
  by (simp_all add: show_int_def show_nat_small show_nat_big digit_char_def char_of_code_iff code_def)

lemma show_two: "show_nat (Suc (Suc 0)) = ''2''"
  by (simp add: show_nat_small digit_char_def char_of_code_iff code_def)

lemma fox_ok_dl:
  "\<forall>j<length (p_urls fox_save).
     download_error ok_env (length (fetched fresh_world) + j) (p_urls fox_save ! j) = None"
  by (simp add: ok_env_downloads)

lemma fox_ok_run:
  "saveImages ok_env fox_save fresh_world =
     (Inr (success_envelope [''/tmp/out/a-red-fox---1000-0.png'', ''/tmp/out/a-red-fox---1001-1.png'']
             ''Successfully saved 2 images to /tmp/out directory''),
      \<lparr>dirs_created = [''/tmp/out''],
       fetched = [''http://x/1.png'', ''http://x/2.png''],
       clock_reads = [1000, 1001],
       files_written = concat (map (saved_files ok_env fresh_world fox_save) [0, Suc 0]),
       provider_calls = []\<rparr>)"
  unfolding saveImages_ok [OF ok_env_mkdir fox_ok_dl ok_env_writes]
  by (simp add: fox_save_simps upt_2 image_path_tmp_out fox_name ok_env_now show_1000
        saved_message_def or_else_def targetDir_def fresh_world_def show_two)

lemma frozen_env_simps:
  "mkdir_result frozen_env k path = None" "download_error frozen_env k url = None"
  "writes_ok frozen_env" "now frozen_env k = 1000"
  by (simp_all add: frozen_env_def ok_env_def download_error_def writes_ok_def png_response_def)

lemma srv_images: "path_join [''/srv'', ''images''] = ''/srv/images''"
  by (simp add: path_join_def normalize_def normalizeString_def push_segment_def)

lemma reset_env_simps:
  "mkdir_result reset_env k path = None" "writes_ok reset_env" "now reset_env k = 1000 + int k"
  "download_error reset_env 0 url = None"
  "download_error reset_env (Suc 0) url = Some (Error ''socket hang up'')"
  "downloaded reset_env 0 url = [137, 80, 78, 71]"
  by (simp_all add: reset_env_def ok_env_def writes_ok_def download_error_def downloaded_def
        png_response_def)

lemma not_found_env_simps:
  "mkdir_result not_found_env k path = None" "writes_ok not_found_env"
  "now not_found_env k = 1000 + int k"
  "download_error not_found_env k url = None"
  "downloaded not_found_env 0 url = [137, 80, 78, 71]"
  "downloaded not_found_env (Suc 0) url = [60, 104, 49, 62]"
  by (simp_all add: not_found_env_def ok_env_def writes_ok_def download_error_def downloaded_def
        png_response_def)

lemma denied_env_fails: "fails_at denied_env fresh_world fox_save AtMkdir (Error ''EACCES'')"
  by (simp add: denied_env_def)

lemma write_env_ok:
  "mkdir_ok disk_full_env fresh_world fox_save" "mkdir_ok sidecar_fail_env fresh_world fox_save"
  "download_error disk_full_env k url = None" "download_error sidecar_fail_env k url = None"
  by (simp_all add: mkdir_ok_def disk_full_env_def sidecar_fail_env_def ok_env_def
        download_error_def png_response_def)

lemma disk_full_env_fails:
  "fails_at disk_full_env fresh_world fox_save (AtImageWrite (Suc 0)) (Error ''ENOSPC'')"
  by (simp add: write_env_ok item_ok_def fox_save_simps)
     (simp add: image_write_def sidecar_write_def disk_full_env_def fresh_world_simps)

lemma sidecar_fail_env_fails:
  "fails_at sidecar_fail_env fresh_world fox_save (AtSidecarWrite 0) (Error ''EIO'')"
  by (simp add: write_env_ok fox_save_simps)
     (simp add: image_write_def sidecar_write_def sidecar_fail_env_def fresh_world_simps)

lemma reset_env_fails:
  "fails_at reset_env fresh_world fox_save (AtDownload (Suc 0)) (Error ''socket hang up'')"
  by (simp add: mkdir_ok_def item_ok_def reset_env_simps fox_save_simps fresh_world_simps)
     (simp add: image_write_def sidecar_write_def reset_env_def ok_env_def)

section \<open>Claims\<close>

text \<open>
  C1. For every request with \<open>k\<close> URLs and no revised prompts, when the directory is
  created and every download and every write succeeds, the call writes exactly \<open>k\<close> image
  files and \<open>k\<close> sidecar files, at \<open>2 * k\<close> different paths, and returns a success
  envelope whose \<^verbatim>\<open>saved_paths\<close> has \<open>k\<close> entries: entry \<open>j\<close> is the path of the image
  file holding the bytes downloaded from URL \<open>j\<close>; no sidecar path is listed.
\<close>

theorem C1_all_saved:
  assumes "p_revisedPrompts params = None"
    and "mkdir_result e (length (dirs_created w)) (targetDir e (p_outputDir params)) = None"
    and "\<forall>j<length (p_urls params).
           download_error e (length (fetched w) + j) (p_urls params ! j) = None"
    and "writes_ok e"
  shows "fst (saveImages e params w) =
           Inr (success_envelope (map (image_path e w params) [0..<length (p_urls params)])
                  (saved_message params (length (p_urls params))))
       \<and> length (map (image_path e w params) [0..<length (p_urls params)]) = length (p_urls params)
       \<and> files_written (snd (saveImages e params w)) =
           files_written w @ concat (map (\<lambda>j.
             [(image_path e w params j,
               Binary (downloaded e (length (fetched w) + j) (p_urls params ! j))),
              (image_path e w params j @ ''.json'',
               Text (JSON_stringify 2
                 (sidecar (p_prompt params) None (p_urls params ! j)
                    (now e (length (clock_reads w) + j))
                    (filename (p_prompt params) (now e (length (clock_reads w) + j)) j))))])
             [0..<length (p_urls params)])
       \<and> distinct (concat (map (\<lambda>j. [image_path e w params j, image_path e w params j @ ''.json''])
             [0..<length (p_urls params)]))"
proof -
  have "revised_at params j = None" for j
    using assms(1) by (simp add: revised_at_def)
  then have "saved_files e w params = (\<lambda>j.
             [(image_path e w params j,
               Binary (downloaded e (length (fetched w) + j) (p_urls params ! j))),
              (image_path e w params j @ ''.json'',
               Text (JSON_stringify 2
                 (sidecar (p_prompt params) None (p_urls params ! j)
                    (now e (length (clock_reads w) + j))
                    (filename (p_prompt params) (now e (length (clock_reads w) + j)) j))))])"
    by (simp add: saved_files_def fun_eq_iff)
  then show ?thesis
    using saveImages_ok [OF assms(2,3,4)] written_paths_distinct [of e w params]
    by simp
qed

text \<open>The request of the fox scenario in an environment where everything succeeds.\<close>

theorem C1_all_saved_example:
  "fst (saveImages ok_env fox_save fresh_world) =
     Inr (success_envelope [''/tmp/out/a-red-fox---1000-0.png'', ''/tmp/out/a-red-fox---1001-1.png'']
            ''Successfully saved 2 images to /tmp/out directory'')
   \<and> map fst (files_written (snd (saveImages ok_env fox_save fresh_world))) =
       [''/tmp/out/a-red-fox---1000-0.png'', ''/tmp/out/a-red-fox---1000-0.png.json'',
        ''/tmp/out/a-red-fox---1001-1.png'', ''/tmp/out/a-red-fox---1001-1.png.json'']"
proof -
  have rp: "p_revisedPrompts fox_save = None"
    by (simp add: fox_save_def)
  have dl: "\<forall>j<length (p_urls fox_save).
              download_error ok_env (length (fetched fresh_world) + j) (p_urls fox_save ! j) = None"
    by (simp add: ok_env_downloads)
  have len: "length (p_urls fox_save) = 2" "[0..<2] = [0, Suc 0]"
    by (simp_all add: fox_save_def upt_rec)
  have fw: "files_written fresh_world = []"
    by (simp add: fresh_world_def)
  have dir: "targetDir ok_env (p_outputDir fox_save) = ''/tmp/out''"
    by (simp add: targetDir_def fox_save_def or_else_def)
  have pre: "dir_prefix ''/tmp/out'' = ''/tmp/out/''"
    by (simp add: dir_prefix_def push_segment_def)
  have p0: "image_path ok_env fresh_world fox_save 0 = ''/tmp/out/a-red-fox---1000-0.png''"
    unfolding image_path_split dir pre
    by (simp add: fox_save_def ok_env_def fresh_world_def eval_filename)
  have p1: "image_path ok_env fresh_world fox_save (Suc 0) = ''/tmp/out/a-red-fox---1001-1.png''"
    unfolding image_path_split dir pre
    by (simp add: fox_save_def ok_env_def fresh_world_def eval_filename)
  have msg: "saved_message fox_save 2 = ''Successfully saved 2 images to /tmp/out directory''"
    by (simp add: saved_message_def fox_save_def or_else_def show_nat_small digit_char_def char_of_code_iff code_def)
  from C1_all_saved [OF rp ok_env_mkdir dl ok_env_writes]
  show ?thesis
    by (simp add: len p0 p1 msg fw)
qed

text \<open>
  C2 (as amended). In \<^verbatim>\<open>save_generated_images\<close>, wherever the environment makes the call
  fail first (creating the directory, a download, an image write or a sidecar write),
  the outcome is this: a failure to create the directory, whatever was thrown, gives an
  envelope marked as an error with the text \<^verbatim>\<open>Failed to save images: Failed to create
  directory:\<close> and the failure's text; any other failure that is an instance of \<^verbatim>\<open>Error\<close>
  gives an envelope marked as an error with \<^verbatim>\<open>Failed to save images:\<close> and its message;
  a thrown value that is not an instance of \<^verbatim>\<open>Error\<close> is thrown again to the caller. Every
  call either fails at one of these places or has all its steps succeed, and then
  returns the success envelope. In \<^verbatim>\<open>image_generation\<close>, once the credential check has
  passed, a provider failure that is an \<^verbatim>\<open>Error\<close> gives an envelope marked as an error with
  \<^verbatim>\<open>Image generation failed:\<close> and its message, and any other thrown value is thrown
  again. So when downloads, file writes and the provider throw only instances of
  \<^verbatim>\<open>Error\<close>, neither operation lets a fault reach the caller.
\<close>

theorem C2_errors_enveloped:
  "(fails_at e w sp site err \<longrightarrow>
      fst (saveImages e sp w) =
        (case site of
           AtMkdir \<Rightarrow>
             Inr (error_envelope
                    (''Failed to save images: Failed to create directory: '' @ error_text err))
         | _ \<Rightarrow>
             (case err of
                Error m \<Rightarrow> Inr (error_envelope (''Failed to save images: '' @ m))
              | NonError v \<Rightarrow> Inl (NonError v))))
   \<and> ((mkdir_ok e w sp \<and> (\<forall>j<length (p_urls sp). item_ok e w sp j))
        \<or> (\<exists>site err. fails_at e w sp site err))
   \<and> (mkdir_ok e w sp \<and> (\<forall>j<length (p_urls sp). item_ok e w sp j) \<longrightarrow>
        fst (saveImages e sp w) =
          Inr (success_envelope (map (image_path e w sp) [0..<length (p_urls sp)])
                 (saved_message sp (length (p_urls sp)))))
   \<and> (\<not> falsy (OPENAI_API_KEY e) \<longrightarrow>
       (case generate_result e (length (provider_calls w)) (generate_request_of gp) of
          Inl (Error m) \<Rightarrow>
            fst (generateImage e gp w) = Inr (error_envelope (''Image generation failed: '' @ m))
        | Inl (NonError v) \<Rightarrow> fst (generateImage e gp w) = Inl (NonError v)
        | Inr data \<Rightarrow> (\<exists>r. fst (generateImage e gp w) = Inr r \<and> isError r = None)))
   \<and> (errors_only e \<longrightarrow>
        (\<exists>r. fst (saveImages e sp w) = Inr r) \<and>
        (\<not> falsy (OPENAI_API_KEY e) \<longrightarrow> (\<exists>r. fst (generateImage e gp w) = Inr r)))"
proof -
  have gen: "case generate_result e (length (provider_calls w)) (generate_request_of gp) of
          Inl (Error m) \<Rightarrow>
            fst (generateImage e gp w) = Inr (error_envelope (''Image generation failed: '' @ m))
        | Inl (NonError v) \<Rightarrow> fst (generateImage e gp w) = Inl (NonError v)
        | Inr data \<Rightarrow> (\<exists>r. fst (generateImage e gp w) = Inr r \<and> isError r = None)"
    if "\<not> falsy (OPENAI_API_KEY e)"
    using that
    by (simp add: generateImage_def images_generate_def error_envelope_def
          split: sum.splits thrown.splits)
  have save_total: "\<exists>r. fst (saveImages e sp w) = Inr r" if eo: "errors_only e"
  proof (cases "fst (saveGeneratedImages e (p_urls sp) (passed_revisedPrompts sp) (p_prompt sp)
                       (p_outputDir sp) w)")
    case (Inr paths)
    then show ?thesis by (simp add: saveImages_fst)
  next
    case (Inl x)
    from saveGeneratedImages_thrown [OF eo Inl] obtain m where "x = Error m"
      by (cases x) (simp_all add: is_Error_def)
    with Inl show ?thesis by (simp add: saveImages_fst)
  qed
  have gen_total: "\<exists>r. fst (generateImage e gp w) = Inr r"
    if eo: "errors_only e" and key: "\<not> falsy (OPENAI_API_KEY e)"
  proof (cases "generate_result e (length (provider_calls w)) (generate_request_of gp)")
    case (Inr data)
    with gen [OF key] show ?thesis by auto
  next
    case (Inl x)
    from errors_only_generate [OF eo Inl] obtain m where "x = Error m"
      by (cases x) (simp_all add: is_Error_def)
    with Inl gen [OF key] show ?thesis by simp
  qed
  from saveImages_fails_at [of e w sp site err] failure_sites_exhaustive [of e w sp]
    saveImages_all_ok [of e w sp] gen save_total gen_total
  show ?thesis by blast
qed

theorem C2_errors_enveloped_example:
  "fst (saveImages denied_env fox_save fresh_world) =
     Inr (error_envelope ''Failed to save images: Failed to create directory: EACCES'')
   \<and> fst (saveImages reset_env fox_save fresh_world) =
     Inr (error_envelope ''Failed to save images: socket hang up'')
   \<and> fst (saveImages disk_full_env fox_save fresh_world) =
     Inr (error_envelope ''Failed to save images: ENOSPC'')
   \<and> fst (saveImages sidecar_fail_env fox_save fresh_world) =
     Inr (error_envelope ''Failed to save images: EIO'')
   \<and> fst (generateImage provider_down_env fox_generate fresh_world) =
     Inr (error_envelope ''Image generation failed: 429 Too Many Requests'')"
proof -
  have key: "\<not> falsy (OPENAI_API_KEY provider_down_env)"
    by (simp add: falsy_def provider_down_env_def ok_env_def)
  have down: "generate_result provider_down_env k rq = Inl (Error ''429 Too Many Requests'')" for k rq
    by (simp add: provider_down_env_def)
  have "fst (saveImages denied_env fox_save fresh_world) =
          Inr (error_envelope ''Failed to save images: Failed to create directory: EACCES'')"
    using C2_errors_enveloped [THEN conjunct1, THEN mp, OF denied_env_fails]
    by (simp add: error_text_def)
  moreover have "fst (saveImages reset_env fox_save fresh_world) =
          Inr (error_envelope ''Failed to save images: socket hang up'')"
    using C2_errors_enveloped [THEN conjunct1, THEN mp, OF reset_env_fails] by simp
  moreover have "fst (saveImages disk_full_env fox_save fresh_world) =
          Inr (error_envelope ''Failed to save images: ENOSPC'')"
    using C2_errors_enveloped [THEN conjunct1, THEN mp, OF disk_full_env_fails] by simp
  moreover have "fst (saveImages sidecar_fail_env fox_save fresh_world) =
          Inr (error_envelope ''Failed to save images: EIO'')"
    using C2_errors_enveloped [THEN conjunct1, THEN mp, OF sidecar_fail_env_fails] by simp
  moreover have "fst (generateImage provider_down_env fox_generate fresh_world) =
          Inr (error_envelope ''Image generation failed: 429 Too Many Requests'')"
    using C2_errors_enveloped [THEN conjunct2, THEN conjunct2, THEN conjunct2, THEN conjunct1,
        THEN mp, OF key]
    by (simp add: down)
  ultimately show ?thesis by blast
qed

text \<open>A download that throws a string, not an \<^verbatim>\<open>Error\<close>: the fault reaches the caller.\<close>

theorem C2_non_Error_counterexample:
  "fetch_result string_throw_env 0 ''http://x/1.png'' = Inl (NonError ''timeout'')
   \<and> fst (saveImages string_throw_env fox_save fresh_world) = Inl (NonError ''timeout'')"
proof -
  have mk: "mkdir_result string_throw_env k path = None" for k path
    by (simp add: string_throw_env_def ok_env_def)
  have wr: "writes_ok string_throw_env"
    by (simp add: string_throw_env_def ok_env_def writes_ok_def)
  have i: "0 < length (p_urls fox_save)"
    by (simp add: fox_save_simps)
  have fail: "download_error string_throw_env (length (fetched fresh_world) + 0) (p_urls fox_save ! 0)
              = Some (NonError ''timeout'')"
    by (simp add: string_throw_env_def download_error_def)
  have "fst (saveImages string_throw_env fox_save fresh_world) = Inl (NonError ''timeout'')"
    using saveImages_of_NonError [OF saveGeneratedImages_download_fails [OF mk i _ wr fail]]
    by simp
  then show ?thesis
    by (simp add: string_throw_env_def)
qed

text \<open>
  C3 (as amended). For every request with \<open>k\<close> URLs, if the download at index \<open>i\<close> throws
  an \<^verbatim>\<open>Error\<close> (requesting the URL or reading the body fails), after the directory was
  created and the items before \<open>i\<close> were downloaded and written, the whole call returns
  an error envelope with the message of that error and no list of paths; URLs after
  \<open>i\<close> are not requested, no file of an item at index \<open>i\<close> or later is written, and the image
  and sidecar files of the items before \<open>i\<close> stay written.
\<close>

theorem C3_download_failure:
  assumes "mkdir_result e (length (dirs_created w)) (targetDir e (p_outputDir params)) = None"
    and "i < length (p_urls params)"
    and "\<forall>j<i. download_error e (length (fetched w) + j) (p_urls params ! j) = None"
    and "writes_ok e"
    and "download_error e (length (fetched w) + i) (p_urls params ! i) = Some (Error m)"
  shows "fst (saveImages e params w) = Inr (error_envelope (''Failed to save images: '' @ m))
       \<and> fetched (snd (saveImages e params w)) = fetched w @ take (Suc i) (p_urls params)
       \<and> files_written (snd (saveImages e params w)) =
           files_written w @ concat (map (saved_files e w params) [0..<i])"
  using saveImages_download_fails [OF assms] by simp

theorem C3_download_failure_example:
  "fst (saveImages reset_env fox_save fresh_world) =
     Inr (error_envelope ''Failed to save images: socket hang up'')
   \<and> fetched (snd (saveImages reset_env fox_save fresh_world)) = [''http://x/1.png'', ''http://x/2.png'']
   \<and> map fst (files_written (snd (saveImages reset_env fox_save fresh_world))) =
       [''/tmp/out/a-red-fox---1000-0.png'', ''/tmp/out/a-red-fox---1000-0.png.json'']"
proof -
  have i: "Suc 0 < length (p_urls fox_save)"
    by (simp add: fox_save_simps)
  have dl: "\<forall>j<Suc 0. download_error reset_env (length (fetched fresh_world) + j) (p_urls fox_save ! j) = None"
    by (simp add: reset_env_simps fresh_world_simps)
  have fail: "download_error reset_env (length (fetched fresh_world) + Suc 0) (p_urls fox_save ! Suc 0)
              = Some (Error ''socket hang up'')"
    by (simp add: reset_env_simps fresh_world_simps)
  from C3_download_failure [OF reset_env_simps(1) i dl reset_env_simps(2) fail]
  show ?thesis
    by (simp add: fox_save_simps fresh_world_simps saved_files_def image_path_tmp_out fox_name
          reset_env_simps show_1000)
qed

text \<open>A response with an HTTP error status is no failure for the loop, which never looks
  at the status. The second URL answers 404 with an error page: the call succeeds and the
  page is saved as the second image.\<close>

theorem C3_http_status_counterexample:
  "fetch_result not_found_env 1 ''http://x/2.png'' = Inr \<lparr>status = 404, arrayBuffer = Inr [60, 104, 49, 62]\<rparr>
   \<and> fst (saveImages not_found_env fox_save fresh_world) =
       Inr (success_envelope [''/tmp/out/a-red-fox---1000-0.png'', ''/tmp/out/a-red-fox---1001-1.png'']
              ''Successfully saved 2 images to /tmp/out directory'')
   \<and> files_written (snd (saveImages not_found_env fox_save fresh_world)) ! 2 =
       (''/tmp/out/a-red-fox---1001-1.png'', Binary [60, 104, 49, 62])"
proof -
  have dl: "\<forall>j<length (p_urls fox_save).
     download_error not_found_env (length (fetched fresh_world) + j) (p_urls fox_save ! j) = None"
    by (simp add: not_found_env_simps)
  have "fetch_result not_found_env 1 ''http://x/2.png'' =
          Inr \<lparr>status = 404, arrayBuffer = Inr [60, 104, 49, 62]\<rparr>"
    by (simp add: not_found_env_def)
  then show ?thesis
    unfolding saveImages_ok [OF not_found_env_simps(1) dl not_found_env_simps(2)]
    by (simp add: fox_save_simps fresh_world_simps upt_2 image_path_tmp_out fox_name
          not_found_env_simps show_1000 saved_files_def saved_message_def or_else_def show_two)
qed

text \<open>
  C4. For every generation request, if no provider credential is available (the
  environment variable is unset or empty), the handler fails before the provider is
  called: the world, and with it the list of provider calls, is unchanged, and the
  failure is thrown to the caller, not returned as an error envelope. This holds for the
  handler of the server and for the function of the same name in the shared module.
\<close>

theorem C4_missing_credential:
  assumes "falsy (OPENAI_API_KEY e)"
  shows "generateImage e params w = (Inl (Error ''OpenAI API key is not available''), w)
       \<and> shared_generateImage e params w = (Inl (Error ''OpenAI API key is not available''), w)
       \<and> provider_calls (snd (generateImage e params w)) = provider_calls w
       \<and> provider_calls (snd (shared_generateImage e params w)) = provider_calls w"
  using assms by (simp add: generateImage_def shared_generateImage_def)

theorem C4_missing_credential_example:
  "generateImage no_key_env fox_generate fresh_world =
     (Inl (Error ''OpenAI API key is not available''), fresh_world)
   \<and> provider_calls (snd (generateImage no_key_env fox_generate fresh_world)) = []"
proof -
  have "falsy (OPENAI_API_KEY no_key_env)"
    by (simp add: falsy_def no_key_env_def)
  from C4_missing_credential [OF this, of fox_generate fresh_world] show ?thesis
    by (simp add: fresh_world_simps)
qed

text \<open>
  C5. For every prompt \<open>p\<close>, millisecond timestamp \<open>t\<close> and zero-based index \<open>i\<close>, the derived
  file name is the first 30 characters of \<open>p\<close>, every character outside a-z, A-Z, 0-9
  replaced by a hyphen, lowercased, followed by a hyphen, \<open>t\<close>, a hyphen, \<open>i\<close> and
  \<^verbatim>\<open>.png\<close>. The name is a function of \<open>(p, t, i)\<close> alone.
\<close>

theorem C5_filename_derivation: "filename p t i = spec_filename p t i"
  by (simp add: filename_def spec_filename_def safePrompt_def toLowerCase_def
        replace_non_alnum_def slice_take sanitize_char)

theorem C5_filename_example:
  "spec_filename ''A Red Fox!!'' 1000 0 = ''a-red-fox---1000-0.png''"
  unfolding C5_filename_derivation [symmetric] by (simp add: eval_filename)

text \<open>
  C6 (as amended). A timestamp is read once per item, after its download, inside the
  loop: item \<open>j\<close> of a call takes the \<open>j\<close>-th reading of the clock made by the call, and
  that reading stands in its file name and in its sidecar. The file names of one call
  are pairwise different, whatever the readings are, since each ends in its own index;
  the file system is not consulted.
\<close>

theorem C6_timestamp_per_item:
  assumes "mkdir_result e (length (dirs_created w)) (targetDir e (p_outputDir params)) = None"
    and "\<forall>j<length (p_urls params).
           download_error e (length (fetched w) + j) (p_urls params ! j) = None"
    and "writes_ok e"
  shows "clock_reads (snd (saveImages e params w)) =
           clock_reads w @ map (\<lambda>j. now e (length (clock_reads w) + j)) [0..<length (p_urls params)]
       \<and> files_written (snd (saveImages e params w)) =
           files_written w @ concat (map (saved_files e w params) [0..<length (p_urls params)])
       \<and> distinct (map (\<lambda>j. filename (p_prompt params) (now e (length (clock_reads w) + j)) j)
                     [0..<length (p_urls params)])"
  using saveImages_ok [OF assms] filenames_distinct by simp

theorem C6_timestamp_per_item_example:
  "clock_reads (snd (saveImages ok_env fox_save fresh_world)) = [1000, 1001]
   \<and> distinct [filename ''A Red Fox!!'' 1000 0, filename ''A Red Fox!!'' 1001 1]"
  using C6_timestamp_per_item [OF ok_env_mkdir fox_ok_dl ok_env_writes]
  by (simp add: fox_save_simps fresh_world_simps upt_2 ok_env_now)

text \<open>The clock moves between the two items, and the two names carry different timestamps:
  no single timestamp, neither the first reading nor the second, gives both names.\<close>

theorem C6_shared_timestamp_counterexample:
  "clock_reads (snd (saveImages ok_env fox_save fresh_world)) = [1000, 1001]
   \<and> map fst (files_written (snd (saveImages ok_env fox_save fresh_world))) \<noteq>
       [''/tmp/out/'' @ filename ''A Red Fox!!'' 1000 0, ''/tmp/out/'' @ filename ''A Red Fox!!'' 1000 0 @ ''.json'',
        ''/tmp/out/'' @ filename ''A Red Fox!!'' 1000 1, ''/tmp/out/'' @ filename ''A Red Fox!!'' 1000 1 @ ''.json'']
   \<and> map fst (files_written (snd (saveImages ok_env fox_save fresh_world))) \<noteq>
       [''/tmp/out/'' @ filename ''A Red Fox!!'' 1001 0, ''/tmp/out/'' @ filename ''A Red Fox!!'' 1001 0 @ ''.json'',
        ''/tmp/out/'' @ filename ''A Red Fox!!'' 1001 1, ''/tmp/out/'' @ filename ''A Red Fox!!'' 1001 1 @ ''.json'']"
  unfolding fox_ok_run
  by (simp add: saved_files_def fox_save_simps fresh_world_simps image_path_tmp_out fox_name
        ok_env_now show_1000)

text \<open>
  C7. For every generation request with a credential, when the provider call succeeds,
  the handler returns a success envelope whose \<^verbatim>\<open>urls\<close> has one entry per image the
  provider returned, in the provider's order, none filtered out, and whose
  \<^verbatim>\<open>revised_prompts\<close> is aligned with it index for index, with \<^verbatim>\<open>null\<close> where the provider
  gave no revised prompt. The provider is called once, with the requested count.
\<close>

theorem C7_generation_result:
  assumes "\<not> falsy (OPENAI_API_KEY e)"
    and "generate_result e (length (provider_calls w)) (generate_request_of params) = Inr data"
  shows "fst (generateImage e params w) =
           Inr \<lparr>content = [TextContent (JSON_stringify 0 (Obj
                   [(''urls'', Arr (map (\<lambda>image. opt_null (img_url image)) data)),
                    (''revised_prompts'', Arr (map (\<lambda>image. opt_null (img_revised_prompt image)) data))]))],
                isError = None\<rparr>
       \<and> length (map (\<lambda>image. opt_null (img_url image)) data) = length data
       \<and> length (map (\<lambda>image. opt_null (img_revised_prompt image)) data) = length data
       \<and> provider_calls (snd (generateImage e params w)) = provider_calls w @ [generate_request_of params]
       \<and> rq_n (generate_request_of params) = g_n params"
  using assms
  by (simp add: generateImage_def images_generate_def stringify_generated generate_request_of_def)

theorem C7_generation_result_example:
  "fst (generateImage ok_env fox_generate fresh_world) =
     Inr \<lparr>content = [TextContent (JSON_stringify 0 (Obj
             [(''urls'', Arr [Str ''http://x/1.png'', Str ''http://x/2.png'']),
              (''revised_prompts'', Arr [Str ''A crimson fox'', Null])]))],
          isError = None\<rparr>"
proof -
  have key: "\<not> falsy (OPENAI_API_KEY ok_env)"
    by (simp add: falsy_def ok_env_def)
  have gen: "generate_result ok_env (length (provider_calls fresh_world)) (generate_request_of fox_generate) =
     Inr [\<lparr>img_url = Some ''http://x/1.png'', img_revised_prompt = Some ''A crimson fox''\<rparr>,
          \<lparr>img_url = Some ''http://x/2.png'', img_revised_prompt = None\<rparr>]"
    by (simp add: ok_env_def)
  from C7_generation_result [OF key gen] show ?thesis
    by (simp add: opt_null_def)
qed

text \<open>
  C8. For every request, when the directory is created and every download and write
  succeeds, the sidecar of item \<open>j\<close> is written at the image file's path plus \<^verbatim>\<open>.json\<close>; it
  holds the original prompt, the source URL, the timestamp and the file name, and the key
  \<^verbatim>\<open>revised_prompt\<close> with the \<open>j\<close>-th revised prompt when the request has revised prompts
  and the list reaches index \<open>j\<close>. Otherwise the key is absent, and the call succeeds all
  the same.
\<close>

theorem C8_sidecar_contents:
  assumes "mkdir_result e (length (dirs_created w)) (targetDir e (p_outputDir params)) = None"
    and "\<forall>j<length (p_urls params).
           download_error e (length (fetched w) + j) (p_urls params ! j) = None"
    and "writes_ok e"
  shows "fst (saveImages e params w) =
           Inr (success_envelope (map (image_path e w params) [0..<length (p_urls params)])
                  (saved_message params (length (p_urls params))))
       \<and> files_written (snd (saveImages e params w)) =
           files_written w @ concat (map (\<lambda>j.
             [(image_path e w params j,
               Binary (downloaded e (length (fetched w) + j) (p_urls params ! j))),
              (image_path e w params j @ ''.json'',
               Text (JSON_stringify 2 (Obj
                 ([(''original_prompt'', Str (p_prompt params))]
                  @ (case p_revisedPrompts params of
                       None \<Rightarrow> []
                     | Some rs \<Rightarrow> if j < length rs then [(''revised_prompt'', Str (rs ! j))] else [])
                  @ [(''url'', Str (p_urls params ! j)),
                     (''timestamp'', Num (now e (length (clock_reads w) + j))),
                     (''filename'',
                      Str (filename (p_prompt params) (now e (length (clock_reads w) + j)) j))]))))])
             [0..<length (p_urls params)])"
proof -
  have "saved_files e w params = (\<lambda>j.
             [(image_path e w params j,
               Binary (downloaded e (length (fetched w) + j) (p_urls params ! j))),
              (image_path e w params j @ ''.json'',
               Text (JSON_stringify 2 (Obj
                 ([(''original_prompt'', Str (p_prompt params))]
                  @ (case p_revisedPrompts params of
                       None \<Rightarrow> []
                     | Some rs \<Rightarrow> if j < length rs then [(''revised_prompt'', Str (rs ! j))] else [])
                  @ [(''url'', Str (p_urls params ! j)),
                     (''timestamp'', Num (now e (length (clock_reads w) + j))),
                     (''filename'',
                      Str (filename (p_prompt params) (now e (length (clock_reads w) + j)) j))]))))])"
    by (auto simp add: saved_files_def sidecar_def revised_at_def fun_eq_iff split: option.splits)
  then show ?thesis
    using saveImages_ok [OF assms] by simp
qed

text \<open>Two URLs and one revised prompt: the second sidecar has no \<^verbatim>\<open>revised_prompt\<close>.\<close>

theorem C8_sidecar_example:
  "files_written (snd (saveImages ok_env fox_revised fresh_world)) =
     [(''/tmp/out/a-red-fox---1000-0.png'', Binary [137, 80, 78, 71]),
      (''/tmp/out/a-red-fox---1000-0.png.json'',
       Text (JSON_stringify 2 (Obj
         [(''original_prompt'', Str ''A Red Fox!!''), (''revised_prompt'', Str ''A crimson fox''),
          (''url'', Str ''http://x/1.png''), (''timestamp'', Num 1000),
          (''filename'', Str ''a-red-fox---1000-0.png'')]))),
      (''/tmp/out/a-red-fox---1001-1.png'', Binary [137, 80, 78, 71]),
      (''/tmp/out/a-red-fox---1001-1.png.json'',
       Text (JSON_stringify 2 (Obj
         [(''original_prompt'', Str ''A Red Fox!!''),
          (''url'', Str ''http://x/2.png''), (''timestamp'', Num 1001),
          (''filename'', Str ''a-red-fox---1001-1.png'')])))]"
proof -
  have dl: "\<forall>j<length (p_urls fox_revised).
              download_error ok_env (length (fetched fresh_world) + j) (p_urls fox_revised ! j) = None"
    by (simp add: ok_env_downloads)
  have bytes: "downloaded ok_env k url = [137, 80, 78, 71]" for k url
    by (simp add: downloaded_def ok_env_def png_response_def)
  from C8_sidecar_contents [OF ok_env_mkdir dl ok_env_writes]
  show ?thesis
    by (simp add: fox_revised_simps fresh_world_simps upt_2 image_path_tmp_out fox_name
          ok_env_now show_1000 bytes)
qed

text \<open>
  C9 (as amended). For the URLs \<^verbatim>\<open>http://x/1.png\<close> and \<^verbatim>\<open>http://x/2.png\<close>, the prompt
  \<^verbatim>\<open>A Red Fox!!\<close> and the output directory \<^verbatim>\<open>/tmp/out\<close>, when the directory is created
  and every download and write succeeds, the call writes under \<^verbatim>\<open>/tmp/out\<close> the image
  files \<^verbatim>\<open>a-red-fox---<t0>-0.png\<close> and \<^verbatim>\<open>a-red-fox---<t1>-1.png\<close>, with three hyphens
  before the timestamp (two for the exclamation marks, one separator), where \<open>t0\<close> and
  \<open>t1\<close> are the clock readings taken for the first and the second item, and one
  \<^verbatim>\<open>.json\<close> sidecar beside each; \<^verbatim>\<open>saved_paths\<close> has exactly the two image paths.
\<close>

theorem C9_fox_scenario:
  assumes "mkdir_result e (length (dirs_created w)) ''/tmp/out'' = None"
    and "download_error e (length (fetched w)) ''http://x/1.png'' = None"
    and "download_error e (length (fetched w) + 1) ''http://x/2.png'' = None"
    and "writes_ok e"
  shows "map fst (files_written (snd (saveImages e fox_save w))) =
           map fst (files_written w) @
           [''/tmp/out/a-red-fox---'' @ show_int (now e (length (clock_reads w))) @ ''-0.png'',
            ''/tmp/out/a-red-fox---'' @ show_int (now e (length (clock_reads w))) @ ''-0.png.json'',
            ''/tmp/out/a-red-fox---'' @ show_int (now e (length (clock_reads w) + 1)) @ ''-1.png'',
            ''/tmp/out/a-red-fox---'' @ show_int (now e (length (clock_reads w) + 1)) @ ''-1.png.json'']
       \<and> fst (saveImages e fox_save w) =
           Inr (success_envelope
                  [''/tmp/out/a-red-fox---'' @ show_int (now e (length (clock_reads w))) @ ''-0.png'',
                   ''/tmp/out/a-red-fox---'' @ show_int (now e (length (clock_reads w) + 1)) @ ''-1.png'']
                  ''Successfully saved 2 images to /tmp/out directory'')"
proof -
  have dir: "targetDir e (p_outputDir fox_save) = ''/tmp/out''"
    by (simp add: targetDir_def fox_save_simps or_else_def)
  have mk: "mkdir_result e (length (dirs_created w)) (targetDir e (p_outputDir fox_save)) = None"
    using assms(1) by (simp add: dir)
  have dl: "\<forall>j<length (p_urls fox_save).
              download_error e (length (fetched w) + j) (p_urls fox_save ! j) = None"
    using assms(2,3) by (simp add: fox_save_simps less_Suc_eq)
  show ?thesis
    unfolding saveImages_ok [OF mk dl assms(4)]
    by (simp add: fox_save_simps upt_2 image_path_tmp_out fox_name show_1000 saved_files_def
          saved_message_def or_else_def show_two)
qed

theorem C9_fox_scenario_example:
  "map fst (files_written (snd (saveImages ok_env fox_save fresh_world))) =
     [''/tmp/out/a-red-fox---1000-0.png'', ''/tmp/out/a-red-fox---1000-0.png.json'',
      ''/tmp/out/a-red-fox---1001-1.png'', ''/tmp/out/a-red-fox---1001-1.png.json'']"
  using C9_fox_scenario [of ok_env fresh_world]
  by (simp add: ok_env_mkdir ok_env_downloads ok_env_writes fresh_world_simps ok_env_now show_1000)

text \<open>With the clock standing at 1000 the names have three hyphens before the timestamp,
  not the two of the scenario.\<close>

theorem C9_two_hyphens_counterexample:
  "clock_reads (snd (saveImages frozen_env fox_save fresh_world)) = [1000, 1000]
   \<and> map fst (files_written (snd (saveImages frozen_env fox_save fresh_world))) =
       [''/tmp/out/a-red-fox---1000-0.png'', ''/tmp/out/a-red-fox---1000-0.png.json'',
        ''/tmp/out/a-red-fox---1000-1.png'', ''/tmp/out/a-red-fox---1000-1.png.json'']
   \<and> map fst (files_written (snd (saveImages frozen_env fox_save fresh_world))) \<noteq>
       [''/tmp/out/a-red-fox--1000-0.png'', ''/tmp/out/a-red-fox--1000-0.png.json'',
        ''/tmp/out/a-red-fox--1000-1.png'', ''/tmp/out/a-red-fox--1000-1.png.json'']"
proof -
  have dl: "\<forall>j<length (p_urls fox_save).
     download_error frozen_env (length (fetched fresh_world) + j) (p_urls fox_save ! j) = None"
    by (simp add: frozen_env_simps)
  show ?thesis
    unfolding saveImages_ok [OF frozen_env_simps(1) dl frozen_env_simps(3)]
    by (simp add: fox_save_simps fresh_world_simps upt_2 image_path_tmp_out fox_name
          frozen_env_simps show_1000 saved_files_def)
qed

text \<open>
  C10 (as amended). For a request with no URLs, when the target directory is created,
  the call succeeds: the directory is the output directory if one is given and is not
  the empty string, and otherwise \<^verbatim>\<open>images\<close> under the working directory; nothing is
  downloaded and no file is written; the envelope has an empty \<^verbatim>\<open>saved_paths\<close> and a
  message saying that 0 images were saved.
\<close>

theorem C10_no_urls:
  assumes "p_urls params = []"
    and "mkdir_result e (length (dirs_created w)) (targetDir e (p_outputDir params)) = None"
  shows "saveImages e params w =
           (Inr (success_envelope []
                   (''Successfully saved 0 images to '' @ or_else (p_outputDir params) ''images''
                      @ '' directory'')),
            w\<lparr>dirs_created := dirs_created w @ [targetDir e (p_outputDir params)]\<rparr>)
       \<and> targetDir e (p_outputDir params) =
           (case p_outputDir params of
              None \<Rightarrow> path_join [cwd e, ''images'']
            | Some d \<Rightarrow> if d = [] then path_join [cwd e, ''images''] else d)"
proof -
  have "saveGeneratedImages e (p_urls params) (passed_revisedPrompts params) (p_prompt params)
          (p_outputDir params) w =
        (Inr [], w\<lparr>dirs_created := dirs_created w @ [targetDir e (p_outputDir params)]\<rparr>)"
    using assms(1) by (simp add: saveGeneratedImages_loop [OF assms(2)] save_loop_done)
  from saveImages_of_paths [OF this] show ?thesis
    by (simp add: saved_message_def show_1000 targetDir_def or_else_def split: option.splits)
qed

theorem C10_no_urls_example:
  "saveImages ok_env default_dir_save fresh_world =
     (Inr (success_envelope [] ''Successfully saved 0 images to images directory''),
      fresh_world\<lparr>dirs_created := [''/srv/images'']\<rparr>)"
proof -
  have "p_urls default_dir_save = []"
    by (simp add: default_dir_save_def)
  from C10_no_urls [OF this ok_env_mkdir, of fresh_world] show ?thesis
    by (simp add: default_dir_save_def targetDir_def or_else_def ok_env_def srv_images fresh_world_simps)
qed

text \<open>An output directory that is given as the empty string is not the one created.\<close>

theorem C10_empty_outputDir_counterexample:
  "p_outputDir empty_dir_save = Some []
   \<and> dirs_created (snd (saveImages ok_env empty_dir_save fresh_world)) = [''/srv/images'']
   \<and> dirs_created (snd (saveImages ok_env empty_dir_save fresh_world)) \<noteq> [[]]"
proof -
  have dir: "targetDir ok_env (p_outputDir empty_dir_save) = ''/srv/images''"
    by (simp add: targetDir_def empty_dir_save_def or_else_def ok_env_def srv_images)
  have "saveGeneratedImages ok_env (p_urls empty_dir_save) (passed_revisedPrompts empty_dir_save)
          (p_prompt empty_dir_save) (p_outputDir empty_dir_save) fresh_world =
        (Inr [], fresh_world\<lparr>dirs_created := dirs_created fresh_world @ [''/srv/images'']\<rparr>)"
    unfolding saveGeneratedImages_loop [OF ok_env_mkdir] dir
    by (simp add: empty_dir_save_def save_loop_done)
  from saveImages_of_paths [OF this] show ?thesis
    by (simp add: fresh_world_simps empty_dir_save_def)
qed

end
